theory Spec2Isabelle
  imports Complex_Main
begin

section \<open>The persisted tables (database/db_manager.py, setup_database)\<close>

text \<open>
  The store is one SQLite connection with \<^verbatim>\<open>PRAGMA foreign_keys = ON\<close>. Every table has an
  \<^verbatim>\<open>INTEGER PRIMARY KEY AUTOINCREMENT\<close> id; a table is the list of its rows in rowid order,
  and the \<^verbatim>\<open>sqlite_sequence\<close> counter of a table is a field of the database. Python's
  unbounded integers are \<^typ>\<open>int\<close>, SQL \<^verbatim>\<open>NULL\<close>/Python \<^verbatim>\<open>None\<close> is \<^term>\<open>None\<close>, a \<^verbatim>\<open>REAL\<close> column
  (a Python float) is idealised as a \<^typ>\<open>real\<close> (a NaN, which SQLite stores as \<^verbatim>\<open>NULL\<close>, is
  \<^term>\<open>None\<close> wherever a caller can supply one), and a timestamp is the string that
  \<^verbatim>\<open>get_current_timestamp\<close> returned: it is an argument of every operation that reads the clock
  (the readings of one call are identified).
\<close>

type_synonym timestamp = string

record category_row =
  cat_id :: int
  cat_name :: string
  cat_description :: "string option"

record product_row =
  p_id :: int
  p_code :: string
  p_name :: string
  p_description :: "string option"
  p_category_id :: int
  p_price :: real
  p_discount_percent :: "real option"
  p_discount_start_date :: "string option"
  p_discount_end_date :: "string option"
  p_created_at :: timestamp
  p_updated_at :: timestamp

record product_variant_row =
  pv_id :: int
  pv_product_id :: int
  pv_size :: string
  pv_color :: string

record inventory_row =
  inv_id :: int
  inv_variant_id :: int
  inv_quantity :: int
  inv_last_updated :: timestamp

record customer_row =
  cust_id :: int
  cust_name :: string
  cust_email :: "string option"
  cust_phone :: "string option"
  cust_address :: "string option"
  cust_created_at :: timestamp
  cust_updated_at :: timestamp

record sale_row =
  s_id :: int
  s_customer_id :: "int option"
  s_sale_date :: string
  s_payment_method :: string
  s_total_amount :: real

record sale_item_row =
  si_id :: int
  si_sale_id :: int
  si_variant_id :: int
  si_quantity :: int
  si_unit_price :: real
  si_discount_percent :: real
  si_subtotal :: real

record inventory_transaction_row =
  tx_id :: int
  tx_variant_id :: int
  tx_quantity_change :: int
  tx_type :: string
  tx_reference_id :: "int option"
  tx_date :: timestamp
  tx_notes :: "string option"

record database =
  categories :: "category_row list"
  products :: "product_row list"
  product_variants :: "product_variant_row list"
  inventory :: "inventory_row list"
  customers :: "customer_row list"
  sales :: "sale_row list"
  sale_items :: "sale_item_row list"
  inventory_transactions :: "inventory_transaction_row list"
  seq_products :: int
  seq_product_variants :: int
  seq_inventory :: int
  seq_sales :: int
  seq_sale_items :: int
  seq_inventory_transactions :: int

text \<open>The database right after \<^verbatim>\<open>setup_database\<close>, before the default categories are seeded.\<close>

definition empty_database :: database where
  "empty_database = \<lparr>categories = [], products = [], product_variants = [], inventory = [],
     customers = [], sales = [], sale_items = [], inventory_transactions = [],
     seq_products = 0, seq_product_variants = 0, seq_inventory = 0, seq_sales = 0,
     seq_sale_items = 0, seq_inventory_transactions = 0\<rparr>"

section \<open>Errors\<close>

text \<open>
  Every failure of the source is a Python \<^verbatim>\<open>Exception\<close> carrying a message. The messages are
  the constructors below; \<open>Wrapped\<close> is the re-raise \<^verbatim>\<open>Exception(f"Error ...: {str(e)}")\<close> of a
  controller method, and \<open>ExecutingQuery\<close> the one of \<^verbatim>\<open>DatabaseManager.execute\<close> on an
  \<^verbatim>\<open>sqlite3.Error\<close>.
\<close>

datatype sql_error = ForeignKeyFailed | NotNullFailed | UniqueFailed

datatype controller_method =
    CreatingSale | CancellingSale | UpdatingInventory | AdjustingInventory
  | AddingProduct | AddingVariant | DeletingVariant | DeletingCustomer

datatype error =
    ExecutingQuery sql_error
  | ProductNotInInventory
  | InsufficientStock string string string int int
  | InventoryNotFound
  | NegativeQuantity
  | SaleNotFound
  | VariantExists
  | VariantInSales
  | NoneNotSubscriptable
  | Wrapped controller_method error

text \<open>
  A controller method is \<^verbatim>\<open>try: ...; self.db.commit(); return r
  except Exception as e: self.db.conn.rollback(); raise Exception(...)\<close>. The body works on the
  connection's pending state; \<open>commit\<close> makes it the stored state, \<open>rollback\<close> restores the
  state of the last commit, which is the state the method was called in.
\<close>

definition transaction ::
  "controller_method \<Rightarrow> database \<Rightarrow> error + database \<times> 'a \<Rightarrow> database \<times> (error + 'a)" where
  "transaction m db body =
     (case body of
        Inl e \<Rightarrow> (db, Inl (Wrapped m e))
      | Inr (db', r) \<Rightarrow> (db', Inr r))"

section \<open>Statements\<close>

definition fetchone :: "'a list \<Rightarrow> 'a option" where
  "fetchone rows = (case rows of [] \<Rightarrow> None | r # _ \<Rightarrow> Some r)"

definition variant_ids :: "database \<Rightarrow> int list" where
  "variant_ids db = map pv_id (product_variants db)"

text \<open>\<^verbatim>\<open>SELECT * FROM inventory WHERE product_variant_id = ?\<close>\<close>

definition select_inventory :: "database \<Rightarrow> int \<Rightarrow> inventory_row list" where
  "select_inventory db v = filter (\<lambda>r. inv_variant_id r = v) (inventory db)"

text \<open>\<^verbatim>\<open>SELECT quantity FROM inventory WHERE product_variant_id = ?\<close>, then \<^verbatim>\<open>fetchone\<close>\<close>

definition select_quantity :: "database \<Rightarrow> int \<Rightarrow> int option" where
  "select_quantity db v = map_option inv_quantity (fetchone (select_inventory db v))"

text \<open>\<^verbatim>\<open>UPDATE inventory SET quantity = ?, last_updated = ? WHERE product_variant_id = ?\<close>\<close>

definition set_quantity :: "int \<Rightarrow> int \<Rightarrow> timestamp \<Rightarrow> inventory_row \<Rightarrow> inventory_row" where
  "set_quantity v q now r =
     (if inv_variant_id r = v then r\<lparr>inv_quantity := q, inv_last_updated := now\<rparr> else r)"

definition sql_update_inventory :: "database \<Rightarrow> int \<Rightarrow> int \<Rightarrow> timestamp \<Rightarrow> database" where
  "sql_update_inventory db v q now = db\<lparr>inventory := map (set_quantity v q now) (inventory db)\<rparr>"

text \<open>
  \<^verbatim>\<open>INSERT INTO inventory_transactions (...) VALUES (?, ?, ?, ?, ?, ?)\<close>: \<open>transaction_type\<close>
  is \<^verbatim>\<open>NOT NULL\<close> and \<open>product_variant_id\<close> references \<open>product_variants(id)\<close>.
\<close>

definition sql_insert_inventory_transaction ::
  "database \<Rightarrow> int \<Rightarrow> int \<Rightarrow> string option \<Rightarrow> int option \<Rightarrow> timestamp \<Rightarrow> string option
     \<Rightarrow> error + database" where
  "sql_insert_inventory_transaction db v change ttype reference now notes =
     (case ttype of
        None \<Rightarrow> Inl (ExecutingQuery NotNullFailed)
      | Some t \<Rightarrow>
          if v \<notin> set (variant_ids db) then Inl (ExecutingQuery ForeignKeyFailed)
          else Inr (db\<lparr>inventory_transactions := inventory_transactions db @
                  [\<lparr>tx_id = seq_inventory_transactions db + 1, tx_variant_id = v,
                    tx_quantity_change = change, tx_type = t, tx_reference_id = reference,
                    tx_date = now, tx_notes = notes\<rparr>],
                seq_inventory_transactions := seq_inventory_transactions db + 1\<rparr>))"

section \<open>Inventory ledger (controllers/inventory_controller.py)\<close>

definition get_inventory :: "database \<Rightarrow> int \<Rightarrow> inventory_row option" where
  "get_inventory db product_variant_id = fetchone (select_inventory db product_variant_id)"

definition update_inventory_body ::
  "database \<Rightarrow> timestamp \<Rightarrow> int \<Rightarrow> int \<Rightarrow> string option \<Rightarrow> int option \<Rightarrow> string option
     \<Rightarrow> error + database \<times> bool" where
  "update_inventory_body db current_time product_variant_id new_quantity transaction_type
       reference_id notes =
     (case get_inventory db product_variant_id of
        None \<Rightarrow> Inl InventoryNotFound
      | Some current_inventory \<Rightarrow>
          (let current_quantity = inv_quantity current_inventory;
               quantity_change = new_quantity - current_quantity;
               db1 = sql_update_inventory db product_variant_id new_quantity current_time
           in case sql_insert_inventory_transaction db1 product_variant_id quantity_change
                     transaction_type reference_id current_time notes of
                Inl e \<Rightarrow> Inl e
              | Inr db2 \<Rightarrow> Inr (db2, True)))"

definition update_inventory ::
  "database \<Rightarrow> timestamp \<Rightarrow> int \<Rightarrow> int \<Rightarrow> string option \<Rightarrow> int option \<Rightarrow> string option
     \<Rightarrow> database \<times> (error + bool)" where
  "update_inventory db current_time product_variant_id new_quantity transaction_type
       reference_id notes =
     transaction UpdatingInventory db
       (update_inventory_body db current_time product_variant_id new_quantity transaction_type
          reference_id notes)"

text \<open>
  \<open>adjust_inventory\<close> has no rollback of its own: its two \<^verbatim>\<open>raise\<close> statements come before
  any write, and \<open>update_inventory\<close> has rolled back when it raises.
\<close>

definition adjust_inventory ::
  "database \<Rightarrow> timestamp \<Rightarrow> int \<Rightarrow> int \<Rightarrow> string option \<Rightarrow> database \<times> (error + bool)" where
  "adjust_inventory db current_time product_variant_id quantity_change notes =
     (case get_inventory db product_variant_id of
        None \<Rightarrow> (db, Inl (Wrapped AdjustingInventory InventoryNotFound))
      | Some current_inventory \<Rightarrow>
          (let new_quantity = inv_quantity current_inventory + quantity_change
           in if new_quantity < 0 then (db, Inl (Wrapped AdjustingInventory NegativeQuantity))
              else (case update_inventory db current_time product_variant_id new_quantity
                           (Some ''ADJUSTMENT'') None notes of
                      (db', Inl e) \<Rightarrow> (db', Inl (Wrapped AdjustingInventory e))
                    | (db', Inr r) \<Rightarrow> (db', Inr r))))"

section \<open>Sale models (models/sale.py)\<close>

text \<open>
  The objects a caller hands to the controllers. The fields \<open>id\<close> and \<open>sale_id\<close> of the
  Python objects and the display names are left out: \<open>create_sale\<close> assigns \<open>item.sale_id\<close> only
  to pass it to the \<^verbatim>\<open>INSERT\<close>.
\<close>

record sale_item =
  product_variant_id :: int
  quantity :: int
  unit_price :: real
  discount_percent :: real
  subtotal :: real

definition calculate_subtotal :: "sale_item \<Rightarrow> real" where
  "calculate_subtotal item =
     real_of_int (quantity item) * unit_price item * (1 - discount_percent item / 100)"

text \<open>\<^verbatim>\<open>self.subtotal = subtotal if subtotal > 0 else self.calculate_subtotal()\<close>\<close>

definition SaleItem :: "int \<Rightarrow> int \<Rightarrow> real \<Rightarrow> real \<Rightarrow> real \<Rightarrow> sale_item" where
  "SaleItem variant qty price discount sub =
     (let item = \<lparr>product_variant_id = variant, quantity = qty, unit_price = price,
                  discount_percent = discount, subtotal = sub\<rparr>
      in if sub > 0 then item else item\<lparr>subtotal := calculate_subtotal item\<rparr>)"

definition recalculate_subtotal :: "sale_item \<Rightarrow> sale_item" where
  "recalculate_subtotal item = item\<lparr>subtotal := calculate_subtotal item\<rparr>"

text \<open>
  The attributes of a Sale are plain Python attributes: the constructor stores its arguments
  unchecked and a caller can assign them afterwards, so \<open>sale_date\<close>, \<open>payment_method\<close> and
  \<open>total_amount\<close> can each be \<^verbatim>\<open>None\<close>. For \<open>total_amount\<close>, \<^term>\<open>None\<close> also stands for a float
  NaN, which the \<^verbatim>\<open>sqlite3\<close> module binds as \<^verbatim>\<open>NULL\<close>.
\<close>

record sale =
  customer_id :: "int option"
  sale_date :: "string option"
  payment_method :: "string option"
  total_amount :: "real option"
  items :: "sale_item list"

text \<open>
  \<^verbatim>\<open>self.sale_date = sale_date or datetime.now().isoformat()\<close>: a missing or empty date becomes
  the clock reading. The other arguments are stored as given; the items start empty.
\<close>

definition Sale ::
  "timestamp \<Rightarrow> int option \<Rightarrow> string option \<Rightarrow> string option \<Rightarrow> real option \<Rightarrow> sale" where
  "Sale now customer date method amount =
     \<lparr>customer_id = customer,
      sale_date = Some (case date of None \<Rightarrow> now | Some d \<Rightarrow> if d = [] then now else d),
      payment_method = method, total_amount = amount, items = []\<rparr>"

text \<open>\<^verbatim>\<open>sum(item.subtotal for item in self.items)\<close> adds from the left, starting at 0.\<close>

definition recalculate_total :: "sale \<Rightarrow> sale" where
  "recalculate_total s = s\<lparr>total_amount := Some (foldl (+) 0 (map subtotal (items s)))\<rparr>"

fun add_to_items :: "sale_item \<Rightarrow> sale_item list \<Rightarrow> sale_item list" where
  "add_to_items new [] = [new]"
| "add_to_items new (item # rest) =
     (if product_variant_id item = product_variant_id new
      then recalculate_subtotal (item\<lparr>quantity := quantity item + quantity new\<rparr>) # rest
      else item # add_to_items new rest)"

definition add_item :: "sale \<Rightarrow> sale_item \<Rightarrow> sale" where
  "add_item s new = recalculate_total (s\<lparr>items := add_to_items new (items s)\<rparr>)"

section \<open>Sales engine (controllers/sale_controller.py)\<close>

text \<open>Python's \<^verbatim>\<open>str\<close> of an integer, for the notes \<^verbatim>\<open>f"Venta #{sale_id}"\<close>.\<close>

function str_nat :: "nat \<Rightarrow> string" where
  "str_nat n =
     (if n < 10 then [''0123456789'' ! n]
      else str_nat (n div 10) @ [''0123456789'' ! (n mod 10)])"
  by pat_completeness auto
termination
  by (relation "measure id") auto

declare str_nat.simps [simp del]

definition str_int :: "int \<Rightarrow> string" where
  "str_int i = (if i < 0 then ''-'' @ str_nat (nat (- i)) else str_nat (nat i))"

text \<open>
  \<^verbatim>\<open>SELECT p.name, pv.size, pv.color FROM product_variants pv JOIN products p
  ON pv.product_id = p.id WHERE pv.id = ?\<close>
\<close>

definition select_variant_info :: "database \<Rightarrow> int \<Rightarrow> (string \<times> string \<times> string) list" where
  "select_variant_info db v =
     concat (map (\<lambda>pv. map (\<lambda>p. (p_name p, pv_size pv, pv_color pv))
                          (filter (\<lambda>p. p_id p = pv_product_id pv) (products db)))
                 (filter (\<lambda>pv. pv_id pv = v) (product_variants db)))"

text \<open>
  \<^verbatim>\<open>INSERT INTO sales (customer_id, sale_date, payment_method, total_amount)\<close>: \<open>sale_date\<close>,
  \<open>payment_method\<close> and \<open>total_amount\<close> are \<^verbatim>\<open>NOT NULL\<close>; \<open>customer_id\<close> is nullable and
  references \<open>customers(id)\<close>. The result carries \<^verbatim>\<open>cursor.lastrowid\<close>.
\<close>

definition sql_insert_sale ::
  "database \<Rightarrow> int option \<Rightarrow> string option \<Rightarrow> string option \<Rightarrow> real option
     \<Rightarrow> error + database \<times> int" where
  "sql_insert_sale db customer date method amount =
     (case (date, method, amount) of
        (Some d, Some m, Some a) \<Rightarrow>
          if (case customer of None \<Rightarrow> False | Some c \<Rightarrow> c \<notin> set (map cust_id (customers db)))
          then Inl (ExecutingQuery ForeignKeyFailed)
          else Inr (db\<lparr>sales := sales db @
                      [\<lparr>s_id = seq_sales db + 1, s_customer_id = customer, s_sale_date = d,
                        s_payment_method = m, s_total_amount = a\<rparr>],
                    seq_sales := seq_sales db + 1\<rparr>, seq_sales db + 1)
      | _ \<Rightarrow> Inl (ExecutingQuery NotNullFailed))"

text \<open>
  \<^verbatim>\<open>INSERT INTO sale_items (sale_id, product_variant_id, quantity, unit_price,
  discount_percent, subtotal)\<close>: \<open>sale_id\<close> references \<open>sales(id)\<close> and \<open>product_variant_id\<close>
  references \<open>product_variants(id)\<close>.
\<close>

definition sql_insert_sale_item :: "database \<Rightarrow> int \<Rightarrow> sale_item \<Rightarrow> error + database" where
  "sql_insert_sale_item db sale_id item =
     (if sale_id \<notin> set (map s_id (sales db)) \<or> product_variant_id item \<notin> set (variant_ids db)
      then Inl (ExecutingQuery ForeignKeyFailed)
      else Inr (db\<lparr>sale_items := sale_items db @
                  [\<lparr>si_id = seq_sale_items db + 1, si_sale_id = sale_id,
                    si_variant_id = product_variant_id item, si_quantity = quantity item,
                    si_unit_price = unit_price item,
                    si_discount_percent = discount_percent item,
                    si_subtotal = subtotal item\<rparr>],
                seq_sale_items := seq_sale_items db + 1\<rparr>))"

text \<open>The first loop of \<open>create_sale\<close>: it only reads, and raises at the first item that fails.\<close>

fun check_stock :: "database \<Rightarrow> sale_item list \<Rightarrow> error + unit" where
  "check_stock db [] = Inr ()"
| "check_stock db (item # rest) =
     (case select_quantity db (product_variant_id item) of
        None \<Rightarrow> Inl ProductNotInInventory
      | Some current_quantity \<Rightarrow>
          if current_quantity < quantity item then
            (case fetchone (select_variant_info db (product_variant_id item)) of
               None \<Rightarrow> Inl NoneNotSubscriptable
             | Some (product_name, product_size, product_color) \<Rightarrow>
                 Inl (InsufficientStock product_name product_color product_size
                        current_quantity (quantity item)))
          else check_stock db rest)"

text \<open>
  The second loop of \<open>create_sale\<close>. One round inserts the sale item, reads the stock again,
  writes the debited quantity and appends the ledger row.
\<close>

definition sell_item :: "database \<Rightarrow> timestamp \<Rightarrow> int \<Rightarrow> sale_item \<Rightarrow> error + database" where
  "sell_item db now sale_id item =
     (case sql_insert_sale_item db sale_id item of
        Inl e \<Rightarrow> Inl e
      | Inr db1 \<Rightarrow>
          (case select_quantity db1 (product_variant_id item) of
             None \<Rightarrow> Inl NoneNotSubscriptable
           | Some current_quantity \<Rightarrow>
               (let new_quantity = current_quantity - quantity item;
                    db2 = sql_update_inventory db1 (product_variant_id item) new_quantity now
                in sql_insert_inventory_transaction db2 (product_variant_id item)
                     (- quantity item) (Some ''SALE'') (Some sale_id) now
                     (Some (''Venta #'' @ str_int sale_id)))))"

fun sell_items :: "database \<Rightarrow> timestamp \<Rightarrow> int \<Rightarrow> sale_item list \<Rightarrow> error + database" where
  "sell_items db now sale_id [] = Inr db"
| "sell_items db now sale_id (item # rest) =
     (case sell_item db now sale_id item of
        Inl e \<Rightarrow> Inl e
      | Inr db1 \<Rightarrow> sell_items db1 now sale_id rest)"

definition create_sale_body :: "database \<Rightarrow> timestamp \<Rightarrow> sale \<Rightarrow> error + database \<times> int" where
  "create_sale_body db now s =
     (case check_stock db (items s) of
        Inl e \<Rightarrow> Inl e
      | Inr _ \<Rightarrow>
          (case sql_insert_sale db (customer_id s) (sale_date s) (payment_method s)
                  (total_amount s) of
             Inl e \<Rightarrow> Inl e
           | Inr (db1, sale_id) \<Rightarrow>
               (case sell_items db1 now sale_id (items s) of
                  Inl e \<Rightarrow> Inl e
                | Inr db2 \<Rightarrow> Inr (db2, sale_id))))"

definition create_sale :: "database \<Rightarrow> timestamp \<Rightarrow> sale \<Rightarrow> database \<times> (error + int)" where
  "create_sale db now s = transaction CreatingSale db (create_sale_body db now s)"

text \<open>
  \<^verbatim>\<open>SELECT si.*, ... FROM sale_items si JOIN product_variants pv ON si.product_variant_id = pv.id
  JOIN products p ON pv.product_id = p.id WHERE si.sale_id = ?\<close>
\<close>

definition select_sale_items :: "database \<Rightarrow> int \<Rightarrow> sale_item_row list" where
  "select_sale_items db sale_id =
     concat (map (\<lambda>si.
        concat (map (\<lambda>pv. map (\<lambda>p. si) (filter (\<lambda>p. p_id p = pv_product_id pv) (products db)))
                    (filter (\<lambda>pv. pv_id pv = si_variant_id si) (product_variants db))))
        (filter (\<lambda>si. si_sale_id si = sale_id) (sale_items db)))"

definition get_sale :: "database \<Rightarrow> timestamp \<Rightarrow> int \<Rightarrow> sale option" where
  "get_sale db now sale_id =
     (case fetchone (filter (\<lambda>s. s_id s = sale_id) (sales db)) of
        None \<Rightarrow> None
      | Some sale_data \<Rightarrow>
          Some ((Sale now (s_customer_id sale_data) (Some (s_sale_date sale_data))
                   (Some (s_payment_method sale_data)) (Some (s_total_amount sale_data)))
                \<lparr>items := map (\<lambda>item_data. SaleItem (si_variant_id item_data)
                                   (si_quantity item_data) (si_unit_price item_data)
                                   (si_discount_percent item_data) (si_subtotal item_data))
                              (select_sale_items db sale_id)\<rparr>))"

text \<open>\<^verbatim>\<open>DELETE FROM sale_items WHERE sale_id = ?\<close>\<close>

definition sql_delete_sale_items :: "database \<Rightarrow> int \<Rightarrow> database" where
  "sql_delete_sale_items db sale_id =
     db\<lparr>sale_items := filter (\<lambda>si. si_sale_id si \<noteq> sale_id) (sale_items db)\<rparr>"

text \<open>\<^verbatim>\<open>DELETE FROM sales WHERE id = ?\<close>, which cascades to the sale's items.\<close>

definition sql_delete_sale :: "database \<Rightarrow> int \<Rightarrow> database" where
  "sql_delete_sale db sale_id =
     db\<lparr>sales := filter (\<lambda>s. s_id s \<noteq> sale_id) (sales db),
        sale_items := (if sale_id \<in> set (map s_id (sales db))
                       then filter (\<lambda>si. si_sale_id si \<noteq> sale_id) (sale_items db)
                       else sale_items db)\<rparr>"

text \<open>
  The loop of \<open>cancel_sale\<close>. One round reads the stock (\<^verbatim>\<open>self.db.fetchone()[0]\<close> raises
  when there is no row), writes the credited quantity and appends the ledger row.
\<close>

definition restore_item :: "database \<Rightarrow> timestamp \<Rightarrow> int \<Rightarrow> sale_item \<Rightarrow> error + database" where
  "restore_item db now sale_id item =
     (case select_quantity db (product_variant_id item) of
        None \<Rightarrow> Inl NoneNotSubscriptable
      | Some current_quantity \<Rightarrow>
          (let new_quantity = current_quantity + quantity item;
               db1 = sql_update_inventory db (product_variant_id item) new_quantity now
           in sql_insert_inventory_transaction db1 (product_variant_id item)
                (quantity item) (Some ''RETURN'') (Some sale_id) now
                (Some (''Cancelaci'' @ [CHR 0xC3, CHR 0xB3] @ ''n de venta #''
                       @ str_int sale_id))))"

fun restore_items :: "database \<Rightarrow> timestamp \<Rightarrow> int \<Rightarrow> sale_item list \<Rightarrow> error + database" where
  "restore_items db now sale_id [] = Inr db"
| "restore_items db now sale_id (item # rest) =
     (case restore_item db now sale_id item of
        Inl e \<Rightarrow> Inl e
      | Inr db1 \<Rightarrow> restore_items db1 now sale_id rest)"

definition cancel_sale_body :: "database \<Rightarrow> timestamp \<Rightarrow> int \<Rightarrow> error + database \<times> bool" where
  "cancel_sale_body db now sale_id =
     (case get_sale db now sale_id of
        None \<Rightarrow> Inl SaleNotFound
      | Some s \<Rightarrow>
          (case restore_items db now sale_id (items s) of
             Inl e \<Rightarrow> Inl e
           | Inr db1 \<Rightarrow>
               Inr (sql_delete_sale (sql_delete_sale_items db1 sale_id) sale_id, True)))"

definition cancel_sale :: "database \<Rightarrow> timestamp \<Rightarrow> int \<Rightarrow> database \<times> (error + bool)" where
  "cancel_sale db now sale_id = transaction CancellingSale db (cancel_sale_body db now sale_id)"

section \<open>Catalog store (models/product.py, controllers/product_controller.py)\<close>

record product =
  code :: string
  name :: string
  description :: "string option"
  category_id :: "int option"
  price :: real
  product_discount_percent :: "real option"
  discount_start_date :: "string option"
  discount_end_date :: "string option"

text \<open>\<open>ProductVariant.__init__\<close> sets \<open>inventory_quantity\<close> to 0; callers assign it afterwards.\<close>

record product_variant =
  product_id :: "int option"
  variant_size :: string
  variant_color :: string
  inventory_quantity :: int

definition ProductVariant :: "int option \<Rightarrow> string \<Rightarrow> string \<Rightarrow> product_variant" where
  "ProductVariant product sz color =
     \<lparr>product_id = product, variant_size = sz, variant_color = color, inventory_quantity = 0\<rparr>"

text \<open>
  \<^verbatim>\<open>INSERT INTO products (...)\<close>: \<open>category_id\<close> is \<^verbatim>\<open>NOT NULL\<close> and references
  \<open>categories(id)\<close>, \<open>code\<close> is \<^verbatim>\<open>UNIQUE\<close>.
\<close>

definition sql_insert_product :: "database \<Rightarrow> product \<Rightarrow> timestamp \<Rightarrow> error + database \<times> int" where
  "sql_insert_product db p now =
     (case category_id p of
        None \<Rightarrow> Inl (ExecutingQuery NotNullFailed)
      | Some c \<Rightarrow>
          if code p \<in> set (map p_code (products db)) then Inl (ExecutingQuery UniqueFailed)
          else if c \<notin> set (map cat_id (categories db)) then Inl (ExecutingQuery ForeignKeyFailed)
          else Inr (db\<lparr>products := products db @
                      [\<lparr>p_id = seq_products db + 1, p_code = code p, p_name = name p,
                        p_description = description p, p_category_id = c, p_price = price p,
                        p_discount_percent = product_discount_percent p,
                        p_discount_start_date = discount_start_date p,
                        p_discount_end_date = discount_end_date p,
                        p_created_at = now, p_updated_at = now\<rparr>],
                    seq_products := seq_products db + 1\<rparr>, seq_products db + 1))"

text \<open>
  \<^verbatim>\<open>INSERT INTO product_variants (product_id, size, color)\<close>: \<open>product_id\<close> is
  \<^verbatim>\<open>NOT NULL\<close> and references \<open>products(id)\<close>, and \<open>(product_id, size, color)\<close> is \<^verbatim>\<open>UNIQUE\<close>.
\<close>

definition sql_insert_product_variant ::
  "database \<Rightarrow> int option \<Rightarrow> string \<Rightarrow> string \<Rightarrow> error + database \<times> int" where
  "sql_insert_product_variant db product sz color =
     (case product of
        None \<Rightarrow> Inl (ExecutingQuery NotNullFailed)
      | Some p \<Rightarrow>
          if (p, sz, color) \<in> set (map (\<lambda>pv. (pv_product_id pv, pv_size pv, pv_color pv))
                                     (product_variants db))
          then Inl (ExecutingQuery UniqueFailed)
          else if p \<notin> set (map p_id (products db)) then Inl (ExecutingQuery ForeignKeyFailed)
          else Inr (db\<lparr>product_variants := product_variants db @
                      [\<lparr>pv_id = seq_product_variants db + 1, pv_product_id = p,
                        pv_size = sz, pv_color = color\<rparr>],
                    seq_product_variants := seq_product_variants db + 1\<rparr>,
                    seq_product_variants db + 1))"

text \<open>
  \<^verbatim>\<open>INSERT INTO inventory (product_variant_id, quantity, last_updated)\<close>:
  \<open>product_variant_id\<close> references \<open>product_variants(id)\<close>; the column is not unique.
\<close>

definition sql_insert_inventory :: "database \<Rightarrow> int \<Rightarrow> int \<Rightarrow> timestamp \<Rightarrow> error + database" where
  "sql_insert_inventory db v q now =
     (if v \<notin> set (variant_ids db) then Inl (ExecutingQuery ForeignKeyFailed)
      else Inr (db\<lparr>inventory := inventory db @
                  [\<lparr>inv_id = seq_inventory db + 1, inv_variant_id = v, inv_quantity = q,
                    inv_last_updated = now\<rparr>],
                seq_inventory := seq_inventory db + 1\<rparr>))"

text \<open>The loop of \<open>add_product\<close>: each variant gets an inventory row with the literal 0.\<close>

fun insert_variants ::
  "database \<Rightarrow> timestamp \<Rightarrow> int \<Rightarrow> product_variant list \<Rightarrow> error + database" where
  "insert_variants db now new_product [] = Inr db"
| "insert_variants db now new_product (variant # rest) =
     (case sql_insert_product_variant db (Some new_product) (variant_size variant)
             (variant_color variant) of
        Inl e \<Rightarrow> Inl e
      | Inr (db1, variant_id) \<Rightarrow>
          (case sql_insert_inventory db1 variant_id 0 now of
             Inl e \<Rightarrow> Inl e
           | Inr db2 \<Rightarrow> insert_variants db2 now new_product rest))"

definition add_product ::
  "database \<Rightarrow> timestamp \<Rightarrow> product \<Rightarrow> product_variant list \<Rightarrow> database \<times> (error + int)" where
  "add_product db current_time p variants =
     transaction AddingProduct db
       (case sql_insert_product db p current_time of
          Inl e \<Rightarrow> Inl e
        | Inr (db1, new_product) \<Rightarrow>
            (case insert_variants db1 current_time new_product variants of
               Inl e \<Rightarrow> Inl e
             | Inr db2 \<Rightarrow> Inr (db2, new_product)))"

text \<open>
  \<^verbatim>\<open>SELECT id FROM product_variants WHERE product_id = ? AND size = ? AND color = ?\<close>; a
  comparison with \<^verbatim>\<open>NULL\<close> matches no row.
\<close>

definition select_variant :: "database \<Rightarrow> product_variant \<Rightarrow> int list" where
  "select_variant db variant =
     map pv_id (filter (\<lambda>pv. Some (pv_product_id pv) = product_id variant
                              \<and> pv_size pv = variant_size variant
                              \<and> pv_color pv = variant_color variant)
                       (product_variants db))"

definition add_variant ::
  "database \<Rightarrow> timestamp \<Rightarrow> product_variant \<Rightarrow> database \<times> (error + int)" where
  "add_variant db current_time variant =
     transaction AddingVariant db
       (case fetchone (select_variant db variant) of
          Some existing \<Rightarrow> Inl VariantExists
        | None \<Rightarrow>
            (case sql_insert_product_variant db (product_id variant) (variant_size variant)
                    (variant_color variant) of
               Inl e \<Rightarrow> Inl e
             | Inr (db1, variant_id) \<Rightarrow>
                 (case sql_insert_inventory db1 variant_id (inventory_quantity variant)
                         current_time of
                    Inl e \<Rightarrow> Inl e
                  | Inr db2 \<Rightarrow> Inr (db2, variant_id))))"

text \<open>\<^verbatim>\<open>DELETE FROM inventory WHERE product_variant_id = ?\<close>\<close>

definition sql_delete_inventory :: "database \<Rightarrow> int \<Rightarrow> database" where
  "sql_delete_inventory db v = db\<lparr>inventory := filter (\<lambda>r. inv_variant_id r \<noteq> v) (inventory db)\<rparr>"

text \<open>
  \<^verbatim>\<open>DELETE FROM product_variants WHERE id = ?\<close>: restricted by the sale items and the
  inventory transactions of the variant, cascading to its inventory rows.
\<close>

definition sql_delete_product_variant :: "database \<Rightarrow> int \<Rightarrow> error + database" where
  "sql_delete_product_variant db v =
     (if v \<notin> set (variant_ids db) then Inr db
      else if v \<in> set (map si_variant_id (sale_items db))
              \<or> v \<in> set (map tx_variant_id (inventory_transactions db))
      then Inl (ExecutingQuery ForeignKeyFailed)
      else Inr (db\<lparr>product_variants := filter (\<lambda>pv. pv_id pv \<noteq> v) (product_variants db),
                   inventory := filter (\<lambda>r. inv_variant_id r \<noteq> v) (inventory db)\<rparr>))"

definition delete_variant :: "database \<Rightarrow> int \<Rightarrow> database \<times> (error + bool)" where
  "delete_variant db variant_id =
     transaction DeletingVariant db
       (let count = length (filter (\<lambda>si. si_variant_id si = variant_id) (sale_items db))
        in if count > 0 then Inl VariantInSales
           else (case sql_delete_product_variant (sql_delete_inventory db variant_id) variant_id of
                   Inl e \<Rightarrow> Inl e
                 | Inr db1 \<Rightarrow> Inr (db1, True)))"

section \<open>Customer directory (controllers/customer_controller.py)\<close>

definition null_customer :: "int \<Rightarrow> sale_row \<Rightarrow> sale_row" where
  "null_customer c s = (if s_customer_id s = Some c then s\<lparr>s_customer_id := None\<rparr> else s)"

text \<open>\<^verbatim>\<open>UPDATE sales SET customer_id = NULL WHERE customer_id = ?\<close>\<close>

definition sql_null_sales_customer :: "database \<Rightarrow> int \<Rightarrow> database" where
  "sql_null_sales_customer db c = db\<lparr>sales := map (null_customer c) (sales db)\<rparr>"

text \<open>\<^verbatim>\<open>DELETE FROM customers WHERE id = ?\<close>, with \<^verbatim>\<open>ON DELETE SET NULL\<close> on \<open>sales\<close>.\<close>

definition sql_delete_customer :: "database \<Rightarrow> int \<Rightarrow> database" where
  "sql_delete_customer db c =
     db\<lparr>customers := filter (\<lambda>r. cust_id r \<noteq> c) (customers db),
        sales := (if c \<in> set (map cust_id (customers db))
                  then map (null_customer c) (sales db) else sales db)\<rparr>"

definition delete_customer :: "database \<Rightarrow> int \<Rightarrow> database \<times> (error + bool)" where
  "delete_customer db c =
     transaction DeletingCustomer db
       (let count = length (filter (\<lambda>s. s_customer_id s = Some c) (sales db));
            db1 = (if count > 0 then sql_null_sales_customer db c else db)
        in Inr (sql_delete_customer db1 c, True))"

section \<open>Constraints of the schema\<close>

text \<open>
  What SQLite enforces on every stored state of the tables above: the primary keys, the
  \<^verbatim>\<open>AUTOINCREMENT\<close> counters (an id is never above the counter of its table) and the foreign
  keys of \<open>setup_database\<close>.
\<close>

definition schema_holds :: "database \<Rightarrow> bool" where
  "schema_holds db \<longleftrightarrow>
     distinct (map p_id (products db)) \<and>
     distinct (map pv_id (product_variants db)) \<and>
     distinct (map s_id (sales db)) \<and>
     (\<forall>p\<in>set (products db). p_id p \<le> seq_products db) \<and>
     (\<forall>pv\<in>set (product_variants db). pv_id pv \<le> seq_product_variants db) \<and>
     (\<forall>s\<in>set (sales db). s_id s \<le> seq_sales db) \<and>
     (\<forall>p\<in>set (products db). p_category_id p \<in> set (map cat_id (categories db))) \<and>
     (\<forall>pv\<in>set (product_variants db). pv_product_id pv \<in> set (map p_id (products db))) \<and>
     (\<forall>r\<in>set (inventory db). inv_variant_id r \<in> set (variant_ids db)) \<and>
     (\<forall>s\<in>set (sales db). \<forall>c. s_customer_id s = Some c \<longrightarrow> c \<in> set (map cust_id (customers db))) \<and>
     (\<forall>si\<in>set (sale_items db). si_sale_id si \<in> set (map s_id (sales db))) \<and>
     (\<forall>si\<in>set (sale_items db). si_variant_id si \<in> set (variant_ids db)) \<and>
     (\<forall>tx\<in>set (inventory_transactions db). tx_variant_id tx \<in> set (variant_ids db))"

section \<open>The ledger invariant of the specification\<close>

text \<open>
  Stated from the specification: the signed sum of the \<open>quantity_change\<close> of all
  InventoryTransaction rows of a variant, and the agreement of every Inventory quantity that
  \<open>get_inventory\<close> reads with that sum.
\<close>

definition ledger_sum :: "database \<Rightarrow> int \<Rightarrow> int" where
  "ledger_sum db v =
     sum_list (map tx_quantity_change
                 (filter (\<lambda>t. tx_variant_id t = v) (inventory_transactions db)))"

definition ledger_agrees :: "database \<Rightarrow> bool" where
  "ledger_agrees db \<longleftrightarrow> (\<forall>v q. select_quantity db v = Some q \<longrightarrow> q = ledger_sum db v)"

section \<open>Sequences of calls at the mutation boundary\<close>

text \<open>
  The four entry points that change a stock quantity, each with the clock reading of the call,
  and the stored state after a sequence of such calls (a call that raises leaves the state of
  the last commit).
\<close>

datatype operation =
    UpdateInventory timestamp int int "string option" "int option" "string option"
  | AdjustInventory timestamp int int "string option"
  | CreateSale timestamp sale
  | CancelSale timestamp int

fun apply_operation :: "database \<Rightarrow> operation \<Rightarrow> database" where
  "apply_operation db (UpdateInventory now v q ttype reference notes) =
     fst (update_inventory db now v q ttype reference notes)"
| "apply_operation db (AdjustInventory now v change notes) =
     fst (adjust_inventory db now v change notes)"
| "apply_operation db (CreateSale now s) = fst (create_sale db now s)"
| "apply_operation db (CancelSale now sale_id) = fst (cancel_sale db now sale_id)"

definition run :: "database \<Rightarrow> operation list \<Rightarrow> database" where
  "run db ops = foldl apply_operation db ops"

text \<open>
  What the callers of this repository respect: \<open>adjust_inventory\<close> is the only caller of
  \<open>update_inventory\<close> and passes a quantity it has checked, and a Sale built with \<open>add_item\<close>
  (or by the sale view) has one line item per variant, each with a quantity that is not negative.
\<close>

definition within_contract :: "operation \<Rightarrow> bool" where
  "within_contract op =
     (case op of
        UpdateInventory now v q ttype reference notes \<Rightarrow> 0 \<le> q
      | AdjustInventory now v change notes \<Rightarrow> True
      | CreateSale now s \<Rightarrow>
          distinct (map product_variant_id (items s)) \<and> (\<forall>i\<in>set (items s). 0 \<le> quantity i)
      | CancelSale now sale_id \<Rightarrow> True)"

section \<open>Example state\<close>

definition shirt :: product_row where
  "shirt = \<lparr>p_id = 1, p_code = ''CAM001'', p_name = ''Camiseta'', p_description = None,
     p_category_id = 1, p_price = 20, p_discount_percent = Some 0,
     p_discount_start_date = None, p_discount_end_date = None,
     p_created_at = ''2024-01-01T09:00:00'', p_updated_at = ''2024-01-01T09:00:00''\<rparr>"

text \<open>
  One category, one product with the variants 1 (stock 10, after an adjustment of +10) and
  2 (stock 3, after an adjustment of +3), and one customer.
\<close>

definition shop :: database where
  "shop = \<lparr>categories = [\<lparr>cat_id = 1, cat_name = ''Camisetas'', cat_description = None\<rparr>],
     products = [shirt],
     product_variants =
       [\<lparr>pv_id = 1, pv_product_id = 1, pv_size = ''M'', pv_color = ''Rojo''\<rparr>,
        \<lparr>pv_id = 2, pv_product_id = 1, pv_size = ''L'', pv_color = ''Azul''\<rparr>],
     inventory =
       [\<lparr>inv_id = 1, inv_variant_id = 1, inv_quantity = 10, inv_last_updated = ''2024-01-02T09:00:00''\<rparr>,
        \<lparr>inv_id = 2, inv_variant_id = 2, inv_quantity = 3, inv_last_updated = ''2024-01-02T09:05:00''\<rparr>],
     customers =
       [\<lparr>cust_id = 1, cust_name = ''Ana'', cust_email = None, cust_phone = None,
         cust_address = None, cust_created_at = ''2024-01-01T09:00:00'',
         cust_updated_at = ''2024-01-01T09:00:00''\<rparr>],
     sales = [], sale_items = [],
     inventory_transactions =
       [\<lparr>tx_id = 1, tx_variant_id = 1, tx_quantity_change = 10, tx_type = ''ADJUSTMENT'',
         tx_reference_id = None, tx_date = ''2024-01-02T09:00:00'', tx_notes = None\<rparr>,
        \<lparr>tx_id = 2, tx_variant_id = 2, tx_quantity_change = 3, tx_type = ''ADJUSTMENT'',
         tx_reference_id = None, tx_date = ''2024-01-02T09:05:00'', tx_notes = None\<rparr>],
     seq_products = 1, seq_product_variants = 2, seq_inventory = 2, seq_sales = 0,
     seq_sale_items = 0, seq_inventory_transactions = 2\<rparr>"

text \<open>A sale of the customer 1, as \<open>create_sale\<close> stores it.\<close>

definition ana_sale :: sale_row where
  "ana_sale = \<lparr>s_id = 1, s_customer_id = Some 1, s_sale_date = ''2024-01-05T12:00:00'',
     s_payment_method = ''EFECTIVO'', s_total_amount = 80\<rparr>"

text \<open>Sale objects as a caller builds them: without items, and with two items set directly.\<close>

definition empty_sale :: "int option \<Rightarrow> sale" where
  "empty_sale c = \<lparr>customer_id = c, sale_date = Some ''2024-01-05T12:00:00'',
     payment_method = Some ''EFECTIVO'', total_amount = Some 15, items = []\<rparr>"

definition two_items :: "sale_item \<Rightarrow> sale_item \<Rightarrow> sale" where
  "two_items a b = \<lparr>customer_id = None, sale_date = Some ''2024-01-05T12:00:00'',
     payment_method = Some ''EFECTIVO'', total_amount = Some 0, items = [a, b]\<rparr>"

text \<open>Scenario A of the specification: four units of the variant 1 at 20.00.\<close>

definition scenario_a :: sale where
  "scenario_a = \<lparr>customer_id = Some 1, sale_date = Some ''2024-01-05T12:00:00'',
     payment_method = Some ''EFECTIVO'', total_amount = Some 80,
     items = [SaleItem 1 4 20 0 0]\<rparr>"

text \<open>A new variant of the product 1, with an initial stock of 5 assigned by the caller.\<close>

definition green_variant :: product_variant where
  "green_variant = (ProductVariant (Some 1) ''S'' ''Verde'')\<lparr>inventory_quantity := 5\<rparr>"

text \<open>A sequence of calls at the mutation boundary.\<close>

definition example_calls :: "operation list" where
  "example_calls =
     [AdjustInventory ''2024-01-05T11:00:00'' 2 (- 1) None,
      CreateSale ''2024-01-05T12:00:01'' scenario_a,
      CancelSale ''2024-01-05T12:30:00'' 1,
      UpdateInventory ''2024-01-05T13:00:00'' 1 7 (Some ''PURCHASE'') None None]"

section \<open>Basic facts\<close>

lemma fetchone_Nil [simp]: "fetchone [] = None"
  by (simp add: fetchone_def)

lemma fetchone_Cons [simp]: "fetchone (x # xs) = Some x"
  by (simp add: fetchone_def)

lemma fetchone_map: "fetchone (map f xs) = map_option f (fetchone xs)"
  by (cases xs) simp_all

lemma fetchone_eq_None [simp]: "fetchone xs = None \<longleftrightarrow> xs = []"
  by (cases xs) (simp_all add: fetchone_def)

lemma fetchone_SomeD: "fetchone xs = Some x \<Longrightarrow> x \<in> set xs"
  by (cases xs) (simp_all add: fetchone_def)

lemma select_quantity_SomeD:
  "select_quantity db v = Some q \<Longrightarrow> \<exists>r\<in>set (inventory db). inv_variant_id r = v"
  by (auto simp: select_quantity_def select_inventory_def dest!: fetchone_SomeD)

lemma variant_info_exists:
  assumes "schema_holds db" and "v \<in> set (variant_ids db)"
  shows "select_variant_info db v \<noteq> []"
proof -
  from assms(2) obtain pv where pv: "pv \<in> set (product_variants db)" "pv_id pv = v"
    by (auto simp: variant_ids_def)
  with assms(1) have "pv_product_id pv \<in> set (map p_id (products db))"
    by (simp add: schema_holds_def)
  then obtain p where "p \<in> set (products db)" "p_id p = pv_product_id pv"
    by auto
  with pv show ?thesis
    by (auto simp: select_variant_info_def filter_empty_conv)
qed

lemma schema_holds_shop: "schema_holds shop"
  by (simp add: schema_holds_def shop_def shirt_def variant_ids_def)

lemma ledger_agrees_shop: "ledger_agrees shop"
  by (auto simp: ledger_agrees_def ledger_sum_def select_quantity_def select_inventory_def
        shop_def split: if_splits)

lemma check_stock_append_ok:
  "\<forall>i\<in>set pre. \<exists>q. select_quantity db (product_variant_id i) = Some q \<and> quantity i \<le> q
   \<Longrightarrow> check_stock db (pre @ rest) = check_stock db rest"
  by (induction pre) auto

lemma null_customer_idem: "null_customer c \<circ> null_customer c = null_customer c"
  by (auto simp: null_customer_def fun_eq_iff)

lemma map_null_customer_none:
  "filter (\<lambda>s. s_customer_id s = Some c) xs = [] \<Longrightarrow> map (null_customer c) xs = xs"
  by (induction xs) (auto simp: null_customer_def split: if_splits)

lemmas shop_eval = create_sale_def create_sale_body_def transaction_def select_quantity_def
  select_inventory_def fetchone_def select_variant_info_def shop_def shirt_def two_items_def
  SaleItem_def calculate_subtotal_def

section \<open>Effect of the statements and of the two loops of the sales engine\<close>

lemma filter_variant_set_quantity:
  "filter (\<lambda>r. inv_variant_id r = v') (map (set_quantity v n now) xs)
     = map (set_quantity v n now) (filter (\<lambda>r. inv_variant_id r = v') xs)"
  by (induction xs) (auto simp: set_quantity_def)

lemma select_quantity_set_quantity:
  assumes "inventory db' = map (set_quantity v n now) (inventory db)"
  shows "select_quantity db' v'
     = (if v' = v then map_option (\<lambda>_. n) (select_quantity db v) else select_quantity db v')"
proof (cases "fetchone (filter (\<lambda>r. inv_variant_id r = v') (inventory db))")
  case None
  then show ?thesis
    by (auto simp: assms select_quantity_def select_inventory_def filter_variant_set_quantity)
next
  case (Some r)
  then have "inv_variant_id r = v'"
    by (auto dest!: fetchone_SomeD)
  with Some show ?thesis
    by (auto simp: assms select_quantity_def select_inventory_def filter_variant_set_quantity
          fetchone_map set_quantity_def)
qed

lemma select_quantity_cong:
  "inventory db' = inventory db \<Longrightarrow> select_quantity db' v = select_quantity db v"
  by (simp add: select_quantity_def select_inventory_def)

lemma insert_tx_Inr:
  assumes "sql_insert_inventory_transaction db v ch ty rf now nt = Inr db'"
  shows "\<exists>t. ty = Some t \<and> v \<in> set (variant_ids db) \<and>
     db' = db\<lparr>inventory_transactions := inventory_transactions db @
                  [\<lparr>tx_id = seq_inventory_transactions db + 1, tx_variant_id = v,
                    tx_quantity_change = ch, tx_type = t, tx_reference_id = rf,
                    tx_date = now, tx_notes = nt\<rparr>],
                seq_inventory_transactions := seq_inventory_transactions db + 1\<rparr>"
  using assms
  by (auto simp: sql_insert_inventory_transaction_def split: option.splits if_splits)

lemma insert_sale_item_Inr:
  assumes "sql_insert_sale_item db sid i = Inr db'"
  shows "sid \<in> set (map s_id (sales db)) \<and> product_variant_id i \<in> set (variant_ids db) \<and>
     db' = db\<lparr>sale_items := sale_items db @
                  [\<lparr>si_id = seq_sale_items db + 1, si_sale_id = sid,
                    si_variant_id = product_variant_id i, si_quantity = quantity i,
                    si_unit_price = unit_price i,
                    si_discount_percent = discount_percent i,
                    si_subtotal = subtotal i\<rparr>],
                seq_sale_items := seq_sale_items db + 1\<rparr>"
  using assms
  by (auto simp: sql_insert_sale_item_def split: if_splits)

lemma sell_item_Inr:
  assumes "sell_item db now sid i = Inr db'"
  shows "\<exists>q. select_quantity db (product_variant_id i) = Some q
      \<and> sid \<in> set (map s_id (sales db)) \<and> product_variant_id i \<in> set (variant_ids db)
      \<and> db' = db\<lparr>sale_items := sale_items db @
                  [\<lparr>si_id = seq_sale_items db + 1, si_sale_id = sid,
                    si_variant_id = product_variant_id i, si_quantity = quantity i,
                    si_unit_price = unit_price i,
                    si_discount_percent = discount_percent i,
                    si_subtotal = subtotal i\<rparr>],
                seq_sale_items := seq_sale_items db + 1,
                inventory := map (set_quantity (product_variant_id i) (q - quantity i) now)
                               (inventory db),
                inventory_transactions := inventory_transactions db @
                  [\<lparr>tx_id = seq_inventory_transactions db + 1,
                    tx_variant_id = product_variant_id i,
                    tx_quantity_change = - quantity i, tx_type = ''SALE'',
                    tx_reference_id = Some sid, tx_date = now,
                    tx_notes = Some (''Venta #'' @ str_int sid)\<rparr>],
                seq_inventory_transactions := seq_inventory_transactions db + 1\<rparr>"
proof -
  from assms obtain db1 q where
    a: "sql_insert_sale_item db sid i = Inr db1"
    and b: "select_quantity db1 (product_variant_id i) = Some q"
    and c: "sql_insert_inventory_transaction
              (sql_update_inventory db1 (product_variant_id i) (q - quantity i) now)
              (product_variant_id i) (- quantity i) (Some ''SALE'') (Some sid) now
              (Some (''Venta #'' @ str_int sid)) = Inr db'"
    by (auto simp: sell_item_def Let_def split: sum.splits option.splits)
  note a' = insert_sale_item_Inr [OF a]
  note c' = insert_tx_Inr [OF c]
  from a' b have q: "select_quantity db (product_variant_id i) = Some q"
    by (simp add: select_quantity_def select_inventory_def)
  from a' c' q show ?thesis
    by (auto simp: sql_update_inventory_def variant_ids_def)
qed

lemma sell_items_Cons_Inr:
  "sell_items db now sid (i # rest) = Inr db' \<Longrightarrow>
     \<exists>db1. sell_item db now sid i = Inr db1 \<and> sell_items db1 now sid rest = Inr db'"
  by (auto split: sum.splits)

lemma sell_item_frame:
  assumes "sell_item db now sid i = Inr db'"
  shows "categories db' = categories db \<and> products db' = products db
     \<and> product_variants db' = product_variants db \<and> customers db' = customers db
     \<and> sales db' = sales db \<and> seq_products db' = seq_products db
     \<and> seq_product_variants db' = seq_product_variants db
     \<and> seq_inventory db' = seq_inventory db \<and> seq_sales db' = seq_sales db
     \<and> variant_ids db' = variant_ids db"
  using sell_item_Inr [OF assms] by (auto simp: variant_ids_def)

lemma sell_items_frame:
  "sell_items db now sid its = Inr db' \<Longrightarrow>
     categories db' = categories db \<and> products db' = products db
     \<and> product_variants db' = product_variants db \<and> customers db' = customers db
     \<and> sales db' = sales db \<and> seq_products db' = seq_products db
     \<and> seq_product_variants db' = seq_product_variants db
     \<and> seq_inventory db' = seq_inventory db \<and> seq_sales db' = seq_sales db
     \<and> variant_ids db' = variant_ids db"
proof (induction its arbitrary: db)
  case Nil
  then show ?case by simp
next
  case (Cons i rest)
  from sell_items_Cons_Inr [OF Cons.prems] obtain db1
    where 1: "sell_item db now sid i = Inr db1" and 2: "sell_items db1 now sid rest = Inr db'"
    by blast
  from sell_item_frame [OF 1] Cons.IH [OF 2] show ?case by simp
qed

lemma sell_item_select_quantity:
  assumes "sell_item db now sid i = Inr db'"
  shows "select_quantity db' v
     = map_option (\<lambda>q. if v = product_variant_id i then q - quantity i else q)
         (select_quantity db v)"
proof -
  from sell_item_Inr [OF assms] obtain q where
    q: "select_quantity db (product_variant_id i) = Some q"
    and inv: "inventory db' = map (set_quantity (product_variant_id i) (q - quantity i) now)
                               (inventory db)"
    by auto
  show ?thesis
    using q by (cases "select_quantity db v") (auto simp: select_quantity_set_quantity [OF inv])
qed


text \<open>The columns of a stored sale item and of a ledger row that the callers supply.\<close>

lemma sell_items_sale_items:
  "sell_items db now sid its = Inr db' \<Longrightarrow>
     \<exists>new. sale_items db' = sale_items db @ new
       \<and> map (\<lambda>r. (si_sale_id r, si_variant_id r, si_quantity r, si_unit_price r,
                   si_discount_percent r, si_subtotal r)) new
         = map (\<lambda>i. (sid, product_variant_id i, quantity i, unit_price i,
                     discount_percent i, subtotal i)) its"
proof (induction its arbitrary: db)
  case Nil
  then show ?case by simp
next
  case (Cons i rest)
  from sell_items_Cons_Inr [OF Cons.prems] obtain db1
    where 1: "sell_item db now sid i = Inr db1" and 2: "sell_items db1 now sid rest = Inr db'"
    by blast
  from sell_item_Inr [OF 1] have
    "sale_items db1 = sale_items db @
       [\<lparr>si_id = seq_sale_items db + 1, si_sale_id = sid,
         si_variant_id = product_variant_id i, si_quantity = quantity i,
         si_unit_price = unit_price i, si_discount_percent = discount_percent i,
         si_subtotal = subtotal i\<rparr>]"
    by auto
  with Cons.IH [OF 2] show ?case by auto
qed



lemma restore_item_Inr:
  assumes "restore_item db now sid i = Inr db'"
  shows "\<exists>q. select_quantity db (product_variant_id i) = Some q
      \<and> product_variant_id i \<in> set (variant_ids db)
      \<and> db' = db\<lparr>inventory := map (set_quantity (product_variant_id i) (q + quantity i) now)
                               (inventory db),
                inventory_transactions := inventory_transactions db @
                  [\<lparr>tx_id = seq_inventory_transactions db + 1,
                    tx_variant_id = product_variant_id i,
                    tx_quantity_change = quantity i, tx_type = ''RETURN'',
                    tx_reference_id = Some sid, tx_date = now,
                    tx_notes = Some (''Cancelaci'' @ [CHR 0xC3, CHR 0xB3] @ ''n de venta #''
                                     @ str_int sid)\<rparr>],
                seq_inventory_transactions := seq_inventory_transactions db + 1\<rparr>"
proof -
  from assms obtain q where
    b: "select_quantity db (product_variant_id i) = Some q"
    and c: "sql_insert_inventory_transaction
              (sql_update_inventory db (product_variant_id i) (q + quantity i) now)
              (product_variant_id i) (quantity i) (Some ''RETURN'') (Some sid) now
              (Some (''Cancelaci'' @ [CHR 0xC3, CHR 0xB3] @ ''n de venta #'' @ str_int sid))
            = Inr db'"
    by (auto simp: restore_item_def Let_def split: option.splits)
  from insert_tx_Inr [OF c] b show ?thesis
    by (auto simp: sql_update_inventory_def variant_ids_def)
qed


lemma restore_items_Cons_Inr:
  "restore_items db now sid (i # rest) = Inr db' \<Longrightarrow>
     \<exists>db1. restore_item db now sid i = Inr db1 \<and> restore_items db1 now sid rest = Inr db'"
  by (auto split: sum.splits)

lemma restore_item_frame:
  assumes "restore_item db now sid i = Inr db'"
  shows "categories db' = categories db \<and> products db' = products db
     \<and> product_variants db' = product_variants db \<and> customers db' = customers db
     \<and> sales db' = sales db \<and> sale_items db' = sale_items db
     \<and> seq_products db' = seq_products db
     \<and> seq_product_variants db' = seq_product_variants db
     \<and> seq_inventory db' = seq_inventory db \<and> seq_sales db' = seq_sales db
     \<and> seq_sale_items db' = seq_sale_items db
     \<and> variant_ids db' = variant_ids db"
  using restore_item_Inr [OF assms] by (auto simp: variant_ids_def)

lemma restore_items_frame:
  "restore_items db now sid its = Inr db' \<Longrightarrow>
     categories db' = categories db \<and> products db' = products db
     \<and> product_variants db' = product_variants db \<and> customers db' = customers db
     \<and> sales db' = sales db \<and> sale_items db' = sale_items db
     \<and> seq_products db' = seq_products db
     \<and> seq_product_variants db' = seq_product_variants db
     \<and> seq_inventory db' = seq_inventory db \<and> seq_sales db' = seq_sales db
     \<and> seq_sale_items db' = seq_sale_items db
     \<and> variant_ids db' = variant_ids db"
proof (induction its arbitrary: db)
  case Nil
  then show ?case by simp
next
  case (Cons i rest)
  from restore_items_Cons_Inr [OF Cons.prems] obtain db1
    where 1: "restore_item db now sid i = Inr db1"
      and 2: "restore_items db1 now sid rest = Inr db'"
    by blast
  from restore_item_frame [OF 1] Cons.IH [OF 2] show ?case by simp
qed

lemma restore_item_select_quantity:
  assumes "restore_item db now sid i = Inr db'"
  shows "select_quantity db' v
     = map_option (\<lambda>q. if v = product_variant_id i then q + quantity i else q)
         (select_quantity db v)"
proof -
  from restore_item_Inr [OF assms] obtain q where
    q: "select_quantity db (product_variant_id i) = Some q"
    and inv: "inventory db' = map (set_quantity (product_variant_id i) (q + quantity i) now)
                               (inventory db)"
    by auto
  show ?thesis
    using q by (cases "select_quantity db v") (auto simp: select_quantity_set_quantity [OF inv])
qed








lemma create_sale_Inr:
  assumes "create_sale db now s = (db1, Inr sid)"
  shows "check_stock db (items s) = Inr ()
     \<and> sid = seq_sales db + 1
     \<and> sell_items (db\<lparr>sales := sales db @
           [\<lparr>s_id = seq_sales db + 1, s_customer_id = customer_id s,
             s_sale_date = the (sale_date s), s_payment_method = the (payment_method s),
             s_total_amount = the (total_amount s)\<rparr>],
         seq_sales := seq_sales db + 1\<rparr>) now sid (items s) = Inr db1"
  using assms
  by (auto simp: create_sale_def create_sale_body_def transaction_def sql_insert_sale_def
        split: sum.splits if_splits option.splits)

lemma create_sale_Inr_not_null:
  assumes "create_sale db now s = (db1, Inr sid)"
  shows "sale_date s \<noteq> None \<and> payment_method s \<noteq> None \<and> total_amount s \<noteq> None"
  using assms
  by (auto simp: create_sale_def create_sale_body_def transaction_def sql_insert_sale_def
        split: sum.splits if_splits option.splits)

lemma inv_variant_id_set_quantity [simp]:
  "inv_variant_id (set_quantity v n now r) = inv_variant_id r"
  by (simp add: set_quantity_def)

lemma schema_holds_sell_item:
  assumes "schema_holds db" and "sell_item db now sid i = Inr db'"
  shows "schema_holds db'"
proof -
  from sell_item_Inr [OF assms(2)] obtain q where
    "sid \<in> set (map s_id (sales db))" "product_variant_id i \<in> set (variant_ids db)"
    "db' = db\<lparr>sale_items := sale_items db @
                  [\<lparr>si_id = seq_sale_items db + 1, si_sale_id = sid,
                    si_variant_id = product_variant_id i, si_quantity = quantity i,
                    si_unit_price = unit_price i,
                    si_discount_percent = discount_percent i,
                    si_subtotal = subtotal i\<rparr>],
                seq_sale_items := seq_sale_items db + 1,
                inventory := map (set_quantity (product_variant_id i) (q - quantity i) now)
                               (inventory db),
                inventory_transactions := inventory_transactions db @
                  [\<lparr>tx_id = seq_inventory_transactions db + 1,
                    tx_variant_id = product_variant_id i,
                    tx_quantity_change = - quantity i, tx_type = ''SALE'',
                    tx_reference_id = Some sid, tx_date = now,
                    tx_notes = Some (''Venta #'' @ str_int sid)\<rparr>],
                seq_inventory_transactions := seq_inventory_transactions db + 1\<rparr>"
    by blast
  with assms(1) show ?thesis
    by (simp add: schema_holds_def variant_ids_def)
qed

lemma schema_holds_sell_items:
  "schema_holds db \<Longrightarrow> sell_items db now sid its = Inr db' \<Longrightarrow> schema_holds db'"
proof (induction its arbitrary: db)
  case Nil
  then show ?case by simp
next
  case (Cons i rest)
  from sell_items_Cons_Inr [OF Cons.prems(2)] obtain db1
    where 1: "sell_item db now sid i = Inr db1" and 2: "sell_items db1 now sid rest = Inr db'"
    by blast
  from Cons.IH [OF schema_holds_sell_item [OF Cons.prems(1) 1] 2] show ?case .
qed

lemma schema_holds_insert_sale:
  assumes "schema_holds db" and "sql_insert_sale db c d m a = Inr (db', sid)"
  shows "schema_holds db'"
proof -
  from assms(2) have c: "\<forall>x. c = Some x \<longrightarrow> x \<in> set (map cust_id (customers db))"
    and db': "db' = db\<lparr>sales := sales db @
           [\<lparr>s_id = seq_sales db + 1, s_customer_id = c, s_sale_date = the d,
             s_payment_method = the m, s_total_amount = the a\<rparr>],
         seq_sales := seq_sales db + 1\<rparr>"
    by (auto simp: sql_insert_sale_def split: if_splits option.splits)
  from assms(1) have "\<forall>s\<in>set (sales db). s_id s \<noteq> seq_sales db + 1"
    by (auto simp: schema_holds_def)
  with assms(1) c show ?thesis
    unfolding db' schema_holds_def variant_ids_def by (auto simp: image_iff)
qed

lemma SaleItem_fields [simp]:
  "product_variant_id (SaleItem v q p d sub) = v"
  "quantity (SaleItem v q p d sub) = q"
  "unit_price (SaleItem v q p d sub) = p"
  "discount_percent (SaleItem v q p d sub) = d"
  by (simp_all add: SaleItem_def Let_def)


lemma foldl_plus_sum_list: "foldl (+) a xs = a + sum_list (xs :: real list)"
  by (induction xs arbitrary: a) simp_all

lemma subtotal_SaleItem:
  "subtotal (SaleItem v q p d sub)
     = (if 0 < sub then sub else real_of_int q * p * (1 - d / 100))"
  by (simp add: SaleItem_def Let_def calculate_subtotal_def)

lemmas run_eval = create_sale_def create_sale_body_def transaction_def sql_insert_sale_def
  sell_item_def sql_insert_sale_item_def select_quantity_def select_inventory_def
  sql_update_inventory_def sql_insert_inventory_transaction_def variant_ids_def
  set_quantity_def select_variant_info_def Let_def SaleItem_def calculate_subtotal_def

lemma scenario_a_created:
  "snd (create_sale shop ''2024-01-05T12:00:01'' scenario_a) = Inr 1"
  by (simp add: run_eval scenario_a_def shop_def)

section \<open>The operations keep the constraints of the schema\<close>

lemma schema_holds_empty_database: "schema_holds empty_database"
  by (simp add: schema_holds_def empty_database_def variant_ids_def)

lemma schema_holds_update_inventory_map:
  "schema_holds db \<Longrightarrow> schema_holds (db\<lparr>inventory := map (set_quantity v q now) (inventory db)\<rparr>)"
  by (simp add: schema_holds_def variant_ids_def)

lemma schema_holds_insert_tx:
  assumes "schema_holds db" and "sql_insert_inventory_transaction db v ch ty rf now nt = Inr db'"
  shows "schema_holds db'"
  using insert_tx_Inr [OF assms(2)] assms(1)
  by (auto simp: schema_holds_def variant_ids_def)

lemma schema_holds_update_inventory:
  assumes "schema_holds db"
  shows "schema_holds (fst (update_inventory db now v q ty rf nt))"
proof (cases "update_inventory_body db now v q ty rf nt")
  case (Inl e)
  with assms show ?thesis by (simp add: update_inventory_def transaction_def)
next
  case (Inr res)
  then obtain db' where db': "sql_insert_inventory_transaction (sql_update_inventory db v q now) v
      (q - inv_quantity (the (get_inventory db v))) ty rf now nt = Inr db'" and res: "res = (db', True)"
    by (auto simp: update_inventory_body_def Let_def split: option.splits sum.splits)
  from schema_holds_update_inventory_map [OF assms]
  have "schema_holds (sql_update_inventory db v q now)"
    by (simp add: sql_update_inventory_def)
  from schema_holds_insert_tx [OF this db'] Inr res show ?thesis
    by (simp add: update_inventory_def transaction_def)
qed

lemma schema_holds_adjust_inventory:
  assumes "schema_holds db"
  shows "schema_holds (fst (adjust_inventory db now v change nt))"
proof (cases "get_inventory db v")
  case None
  with assms show ?thesis by (simp add: adjust_inventory_def)
next
  case (Some row)
  show ?thesis
  proof (cases "inv_quantity row + change < 0")
    case True
    with Some assms show ?thesis by (simp add: adjust_inventory_def)
  next
    case False
    have "fst (adjust_inventory db now v change nt)
        = fst (update_inventory db now v (inv_quantity row + change)
                 (Some ''ADJUSTMENT'') None nt)"
      using Some False
      by (simp add: adjust_inventory_def Let_def split: prod.splits sum.splits)
    with schema_holds_update_inventory [OF assms] show ?thesis by simp
  qed
qed

lemma schema_holds_create_sale:
  assumes "schema_holds db"
  shows "schema_holds (fst (create_sale db now s))"
proof (cases "create_sale_body db now s")
  case (Inl e)
  with assms show ?thesis by (simp add: create_sale_def transaction_def)
next
  case (Inr res)
  then obtain dbA sid db' where
    ins: "sql_insert_sale db (customer_id s) (sale_date s) (payment_method s) (total_amount s)
            = Inr (dbA, sid)"
    and sell: "sell_items dbA now sid (items s) = Inr db'" and res: "res = (db', sid)"
    by (auto simp: create_sale_body_def split: sum.splits prod.splits)
  from schema_holds_sell_items [OF schema_holds_insert_sale [OF assms ins] sell] Inr res
  show ?thesis by (simp add: create_sale_def transaction_def)
qed

lemma schema_holds_restore_item:
  assumes "schema_holds db" and "restore_item db now sid i = Inr db'"
  shows "schema_holds db'"
proof -
  from assms(2) obtain q where
    c: "sql_insert_inventory_transaction
              (sql_update_inventory db (product_variant_id i) (q + quantity i) now)
              (product_variant_id i) (quantity i) (Some ''RETURN'') (Some sid) now
              (Some (''Cancelaci'' @ [CHR 0xC3, CHR 0xB3] @ ''n de venta #'' @ str_int sid))
            = Inr db'"
    by (auto simp: restore_item_def Let_def split: option.splits)
  from schema_holds_update_inventory_map [OF assms(1)]
  have "schema_holds (sql_update_inventory db (product_variant_id i) (q + quantity i) now)"
    by (simp add: sql_update_inventory_def)
  from schema_holds_insert_tx [OF this c] show ?thesis .
qed

lemma schema_holds_restore_items:
  "schema_holds db \<Longrightarrow> restore_items db now sid its = Inr db' \<Longrightarrow> schema_holds db'"
proof (induction its arbitrary: db)
  case Nil
  then show ?case by simp
next
  case (Cons i rest)
  from restore_items_Cons_Inr [OF Cons.prems(2)] obtain db1
    where 1: "restore_item db now sid i = Inr db1"
      and 2: "restore_items db1 now sid rest = Inr db'"
    by blast
  from Cons.IH [OF schema_holds_restore_item [OF Cons.prems(1) 1] 2] show ?case .
qed

lemma schema_holds_delete_sale:
  assumes "schema_holds db"
  shows "schema_holds (sql_delete_sale (sql_delete_sale_items db sid) sid)"
proof -
  have "si_sale_id si \<in> set (map s_id (filter (\<lambda>s. s_id s \<noteq> sid) (sales db)))"
    if "si \<in> set (sale_items db)" "si_sale_id si \<noteq> sid" for si
  proof -
    from assms that(1) have "si_sale_id si \<in> set (map s_id (sales db))"
      by (simp add: schema_holds_def)
    with that(2) show ?thesis by auto
  qed
  with assms show ?thesis
    unfolding schema_holds_def sql_delete_sale_def sql_delete_sale_items_def variant_ids_def
    by (auto simp: distinct_map_filter)
qed

lemma schema_holds_cancel_sale:
  assumes "schema_holds db"
  shows "schema_holds (fst (cancel_sale db now sid))"
proof (cases "cancel_sale_body db now sid")
  case (Inl e)
  with assms show ?thesis by (simp add: cancel_sale_def transaction_def)
next
  case (Inr res)
  then obtain S dbR where got: "get_sale db now sid = Some S"
    and restore: "restore_items db now sid (items S) = Inr dbR"
    and res: "res = (sql_delete_sale (sql_delete_sale_items dbR sid) sid, True)"
    by (auto simp: cancel_sale_body_def split: option.splits sum.splits)
  from schema_holds_delete_sale [OF schema_holds_restore_items [OF assms restore]] Inr res
  show ?thesis by (simp add: cancel_sale_def transaction_def)
qed

lemma delete_customer_eq:
  "delete_customer db c =
     (db\<lparr>customers := filter (\<lambda>r. cust_id r \<noteq> c) (customers db),
         sales := map (null_customer c) (sales db)\<rparr>,
      Inr True)"
  by (cases "filter (\<lambda>s. s_customer_id s = Some c) (sales db) = []")
     (auto simp: delete_customer_def transaction_def Let_def sql_delete_customer_def
        sql_null_sales_customer_def null_customer_idem map_null_customer_none)

lemma schema_holds_delete_customer:
  assumes "schema_holds db"
  shows "schema_holds (fst (delete_customer db c))"
proof -
  have ids: "s_id (null_customer c s) = s_id s" for s
    by (simp add: null_customer_def)
  have cust: "s_customer_id (null_customer c s)
      = (if s_customer_id s = Some c then None else s_customer_id s)" for s
    by (simp add: null_customer_def)
  have fk: "ca \<in> set (map cust_id (filter (\<lambda>r. cust_id r \<noteq> c) (customers db)))"
    if "s \<in> set (sales db)" "s_customer_id s = Some ca" "ca \<noteq> c" for s ca
  proof -
    from assms that(1,2) have "ca \<in> set (map cust_id (customers db))"
      by (simp add: schema_holds_def)
    with that(3) show ?thesis by auto
  qed
  have "schema_holds (db\<lparr>customers := filter (\<lambda>r. cust_id r \<noteq> c) (customers db),
         sales := map (null_customer c) (sales db)\<rparr>)"
    using assms fk
    unfolding schema_holds_def variant_ids_def
    by (auto simp: ids cust comp_def)
  then show ?thesis
    by (simp add: delete_customer_eq)
qed

lemma insert_product_variant_Inr:
  assumes "sql_insert_product_variant db product sz color = Inr (db', vid)"
  shows "\<exists>p. product = Some p \<and> p \<in> set (map p_id (products db))
     \<and> vid = seq_product_variants db + 1
     \<and> db' = db\<lparr>product_variants := product_variants db @
                      [\<lparr>pv_id = seq_product_variants db + 1, pv_product_id = p,
                        pv_size = sz, pv_color = color\<rparr>],
                    seq_product_variants := seq_product_variants db + 1\<rparr>"
  using assms
  by (auto simp: sql_insert_product_variant_def split: option.splits if_splits)

lemma insert_inventory_Inr:
  assumes "sql_insert_inventory db v q now = Inr db'"
  shows "v \<in> set (variant_ids db)
     \<and> db' = db\<lparr>inventory := inventory db @
                  [\<lparr>inv_id = seq_inventory db + 1, inv_variant_id = v, inv_quantity = q,
                    inv_last_updated = now\<rparr>],
                seq_inventory := seq_inventory db + 1\<rparr>"
  using assms by (auto simp: sql_insert_inventory_def split: if_splits)

lemma schema_holds_insert_product_variant:
  assumes "schema_holds db" and "sql_insert_product_variant db product sz color = Inr (db', vid)"
  shows "schema_holds db'"
proof -
  from insert_product_variant_Inr [OF assms(2)] obtain p where
    p: "p \<in> set (map p_id (products db))"
    and db': "db' = db\<lparr>product_variants := product_variants db @
                      [\<lparr>pv_id = seq_product_variants db + 1, pv_product_id = p,
                        pv_size = sz, pv_color = color\<rparr>],
                    seq_product_variants := seq_product_variants db + 1\<rparr>"
    by blast
  from assms(1) have fresh: "\<forall>pv\<in>set (product_variants db). pv_id pv \<noteq> seq_product_variants db + 1"
    by (auto simp: schema_holds_def)
  with assms(1) p show ?thesis
    unfolding db' schema_holds_def variant_ids_def by (auto simp: image_iff)
qed

lemma schema_holds_insert_inventory:
  assumes "schema_holds db" and "sql_insert_inventory db v q now = Inr db'"
  shows "schema_holds db'"
  using insert_inventory_Inr [OF assms(2)] assms(1)
  by (auto simp: schema_holds_def variant_ids_def)

lemma schema_holds_insert_variants:
  "schema_holds db \<Longrightarrow> insert_variants db now p vs = Inr db' \<Longrightarrow> schema_holds db'"
proof (induction vs arbitrary: db)
  case Nil
  then show ?case by simp
next
  case (Cons v rest)
  from Cons.prems(2) obtain db1 vid db2 where
    1: "sql_insert_product_variant db (Some p) (variant_size v) (variant_color v) = Inr (db1, vid)"
    and 2: "sql_insert_inventory db1 vid 0 now = Inr db2"
    and 3: "insert_variants db2 now p rest = Inr db'"
    by (auto split: sum.splits prod.splits)
  from Cons.IH [OF schema_holds_insert_inventory
      [OF schema_holds_insert_product_variant [OF Cons.prems(1) 1] 2] 3]
  show ?case .
qed

lemma schema_holds_insert_product:
  assumes "schema_holds db" and "sql_insert_product db p now = Inr (db', pid)"
  shows "schema_holds db'"
proof -
  from assms(2) obtain c where c: "c \<in> set (map cat_id (categories db))"
    and db': "db' = db\<lparr>products := products db @
                      [\<lparr>p_id = seq_products db + 1, p_code = code p, p_name = name p,
                        p_description = description p, p_category_id = c, p_price = price p,
                        p_discount_percent = product_discount_percent p,
                        p_discount_start_date = discount_start_date p,
                        p_discount_end_date = discount_end_date p,
                        p_created_at = now, p_updated_at = now\<rparr>],
                    seq_products := seq_products db + 1\<rparr>"
    by (auto simp: sql_insert_product_def split: option.splits if_splits)
  from assms(1) have fresh: "\<forall>x\<in>set (products db). p_id x \<noteq> seq_products db + 1"
    by (auto simp: schema_holds_def)
  with assms(1) c show ?thesis
    unfolding db' schema_holds_def variant_ids_def by (auto simp: image_iff)
qed

lemma schema_holds_add_product:
  assumes "schema_holds db"
  shows "schema_holds (fst (add_product db now p vs))"
proof (cases "sql_insert_product db p now")
  case (Inl e)
  with assms show ?thesis by (simp add: add_product_def transaction_def)
next
  case (Inr res)
  then obtain db1 pid where 1: "sql_insert_product db p now = Inr (db1, pid)"
    by (cases res) auto
  show ?thesis
  proof (cases "insert_variants db1 now pid vs")
    case (Inl e)
    with 1 assms show ?thesis by (simp add: add_product_def transaction_def)
  next
    case (Inr db2)
    from schema_holds_insert_variants [OF schema_holds_insert_product [OF assms 1] Inr] 1 Inr
    show ?thesis by (simp add: add_product_def transaction_def)
  qed
qed

lemma schema_holds_add_variant:
  assumes "schema_holds db"
  shows "schema_holds (fst (add_variant db now v))"
proof (cases "snd (add_variant db now v)")
  case (Inl e)
  then have "fst (add_variant db now v) = db"
    by (auto simp: add_variant_def transaction_def split: sum.splits prod.splits option.splits)
  with assms show ?thesis by simp
next
  case (Inr vid)
  then obtain db1 vid1 db2 where
    1: "sql_insert_product_variant db (product_id v) (variant_size v) (variant_color v)
          = Inr (db1, vid1)"
    and 2: "sql_insert_inventory db1 vid1 (inventory_quantity v) now = Inr db2"
    and 3: "fst (add_variant db now v) = db2"
    by (auto simp: add_variant_def transaction_def split: sum.splits prod.splits option.splits)
  from schema_holds_insert_inventory [OF schema_holds_insert_product_variant [OF assms 1] 2] 3
  show ?thesis by simp
qed

lemma schema_holds_delete_variant:
  assumes "schema_holds db"
  shows "schema_holds (fst (delete_variant db v))"
proof (cases "snd (delete_variant db v)")
  case (Inl e)
  then have "fst (delete_variant db v) = db"
    by (auto simp: delete_variant_def transaction_def Let_def split: sum.splits if_splits)
  with assms show ?thesis by simp
next
  case (Inr r)
  then have res: "sql_delete_product_variant (sql_delete_inventory db v) v
      = Inr (fst (delete_variant db v))"
    by (auto simp: delete_variant_def transaction_def Let_def split: sum.splits if_splits)
  show ?thesis
  proof (cases "v \<in> set (variant_ids db)")
    case False
    with res have eq: "fst (delete_variant db v) = sql_delete_inventory db v"
      by (simp add: sql_delete_product_variant_def sql_delete_inventory_def variant_ids_def)
    from assms show ?thesis
      unfolding eq schema_holds_def sql_delete_inventory_def variant_ids_def by auto
  next
    case True
    with res have unused: "v \<notin> set (map si_variant_id (sale_items db))"
      "v \<notin> set (map tx_variant_id (inventory_transactions db))"
      and eq: "fst (delete_variant db v)
        = db\<lparr>product_variants := filter (\<lambda>pv. pv_id pv \<noteq> v) (product_variants db),
             inventory := filter (\<lambda>r. inv_variant_id r \<noteq> v)
                            (filter (\<lambda>r. inv_variant_id r \<noteq> v) (inventory db))\<rparr>"
      by (auto simp: sql_delete_product_variant_def sql_delete_inventory_def variant_ids_def
            split: if_splits)
    have keep: "x \<in> set (map pv_id (filter (\<lambda>pv. pv_id pv \<noteq> v) (product_variants db)))"
      if "x \<in> set (map pv_id (product_variants db))" "x \<noteq> v" for x
      using that by auto
    have si_ok: "si_variant_id si
        \<in> set (map pv_id (filter (\<lambda>pv. pv_id pv \<noteq> v) (product_variants db)))"
      if "si \<in> set (sale_items db)" for si
    proof -
      from assms that have "si_variant_id si \<in> set (map pv_id (product_variants db))"
        by (simp add: schema_holds_def variant_ids_def)
      moreover from unused(1) that have "si_variant_id si \<noteq> v" by auto
      ultimately show ?thesis by (rule keep)
    qed
    have tx_ok: "tx_variant_id tx
        \<in> set (map pv_id (filter (\<lambda>pv. pv_id pv \<noteq> v) (product_variants db)))"
      if "tx \<in> set (inventory_transactions db)" for tx
    proof -
      from assms that have "tx_variant_id tx \<in> set (map pv_id (product_variants db))"
        by (simp add: schema_holds_def variant_ids_def)
      moreover from unused(2) that have "tx_variant_id tx \<noteq> v" by auto
      ultimately show ?thesis by (rule keep)
    qed
    from assms keep si_ok tx_ok show ?thesis
      unfolding eq schema_holds_def variant_ids_def
      by (auto simp: distinct_map_filter)
  qed
qed

section \<open>The operations that keep the ledger invariant\<close>

text \<open>
  \<open>update_inventory\<close>, \<open>adjust_inventory\<close>, \<open>create_sale\<close>, \<open>cancel_sale\<close>, \<open>add_product\<close> and
  \<open>delete_variant\<close> keep the agreement of stock and ledger, whether they succeed or raise, and
  so does \<open>add_variant\<close> when the variant's \<open>inventory_quantity\<close> is 0.
\<close>

lemma ledger_sum_append_row:
  "inventory_transactions db' = inventory_transactions db @ [t] \<Longrightarrow>
   ledger_sum db' v = ledger_sum db v + (if tx_variant_id t = v then tx_quantity_change t else 0)"
  by (simp add: ledger_sum_def)

lemma ledger_sum_cong:
  "inventory_transactions db' = inventory_transactions db \<Longrightarrow> ledger_sum db' v = ledger_sum db v"
  by (simp add: ledger_sum_def)

lemma ledger_agrees_cong:
  "inventory db' = inventory db \<Longrightarrow> inventory_transactions db' = inventory_transactions db \<Longrightarrow>
   ledger_agrees db' = ledger_agrees db"
  by (simp add: ledger_agrees_def ledger_sum_def select_quantity_def select_inventory_def)

lemma ledger_agrees_sell_item:
  assumes "ledger_agrees db" and "sell_item db now sid i = Inr db'"
  shows "ledger_agrees db'"
proof -
  from sell_item_Inr [OF assms(2)] have
    "inventory_transactions db' = inventory_transactions db @
       [\<lparr>tx_id = seq_inventory_transactions db + 1, tx_variant_id = product_variant_id i,
         tx_quantity_change = - quantity i, tx_type = ''SALE'',
         tx_reference_id = Some sid, tx_date = now,
         tx_notes = Some (''Venta #'' @ str_int sid)\<rparr>]"
    by auto
  from ledger_sum_append_row [OF this]
  have sum: "ledger_sum db' v
      = ledger_sum db v + (if product_variant_id i = v then - quantity i else 0)" for v
    by simp
  show ?thesis
    using assms(1)
    by (auto simp: ledger_agrees_def sum sell_item_select_quantity [OF assms(2)])
qed

lemma ledger_agrees_sell_items:
  "ledger_agrees db \<Longrightarrow> sell_items db now sid its = Inr db' \<Longrightarrow> ledger_agrees db'"
proof (induction its arbitrary: db)
  case Nil
  then show ?case by simp
next
  case (Cons i rest)
  from sell_items_Cons_Inr [OF Cons.prems(2)] obtain db1
    where 1: "sell_item db now sid i = Inr db1" and 2: "sell_items db1 now sid rest = Inr db'"
    by blast
  from Cons.IH [OF ledger_agrees_sell_item [OF Cons.prems(1) 1] 2] show ?case .
qed

lemma ledger_agrees_restore_item:
  assumes "ledger_agrees db" and "restore_item db now sid i = Inr db'"
  shows "ledger_agrees db'"
proof -
  from restore_item_Inr [OF assms(2)] have
    "inventory_transactions db' = inventory_transactions db @
       [\<lparr>tx_id = seq_inventory_transactions db + 1, tx_variant_id = product_variant_id i,
         tx_quantity_change = quantity i, tx_type = ''RETURN'',
         tx_reference_id = Some sid, tx_date = now,
         tx_notes = Some (''Cancelaci'' @ [CHR 0xC3, CHR 0xB3] @ ''n de venta #''
                          @ str_int sid)\<rparr>]"
    by auto
  from ledger_sum_append_row [OF this]
  have sum: "ledger_sum db' v
      = ledger_sum db v + (if product_variant_id i = v then quantity i else 0)" for v
    by simp
  show ?thesis
    using assms(1)
    by (auto simp: ledger_agrees_def sum restore_item_select_quantity [OF assms(2)])
qed

lemma ledger_agrees_restore_items:
  "ledger_agrees db \<Longrightarrow> restore_items db now sid its = Inr db' \<Longrightarrow> ledger_agrees db'"
proof (induction its arbitrary: db)
  case Nil
  then show ?case by simp
next
  case (Cons i rest)
  from restore_items_Cons_Inr [OF Cons.prems(2)] obtain db1
    where 1: "restore_item db now sid i = Inr db1"
      and 2: "restore_items db1 now sid rest = Inr db'"
    by blast
  from Cons.IH [OF ledger_agrees_restore_item [OF Cons.prems(1) 1] 2] show ?case .
qed

lemma ledger_agrees_update_inventory:
  assumes "ledger_agrees db"
  shows "ledger_agrees (fst (update_inventory db now v q ty rf nt))"
proof (cases "update_inventory_body db now v q ty rf nt")
  case (Inl e)
  with assms show ?thesis by (simp add: update_inventory_def transaction_def)
next
  case (Inr res)
  then obtain row db' where row: "get_inventory db v = Some row"
    and db': "sql_insert_inventory_transaction (sql_update_inventory db v q now) v
      (q - inv_quantity row) ty rf now nt = Inr db'" and res: "res = (db', True)"
    by (auto simp: update_inventory_body_def Let_def split: option.splits sum.splits)
  from row have old: "select_quantity db v = Some (inv_quantity row)"
    by (simp add: select_quantity_def get_inventory_def)
  from insert_tx_Inr [OF db'] obtain t where
    inv: "inventory db' = map (set_quantity v q now) (inventory db)"
    and txs: "inventory_transactions db' = inventory_transactions db @
       [\<lparr>tx_id = seq_inventory_transactions db + 1, tx_variant_id = v,
         tx_quantity_change = q - inv_quantity row, tx_type = t, tx_reference_id = rf,
         tx_date = now, tx_notes = nt\<rparr>]"
    by (auto simp: sql_update_inventory_def)
  from ledger_sum_append_row [OF txs]
  have sum: "ledger_sum db' v' = ledger_sum db v' + (if v = v' then q - inv_quantity row else 0)"
    for v'
    by simp
  have "ledger_agrees db'"
    using assms old
    by (auto simp: ledger_agrees_def sum select_quantity_set_quantity [OF inv])
  with Inr res show ?thesis
    by (simp add: update_inventory_def transaction_def)
qed

lemma ledger_agrees_adjust_inventory:
  assumes "ledger_agrees db"
  shows "ledger_agrees (fst (adjust_inventory db now v change nt))"
proof (cases "get_inventory db v")
  case None
  with assms show ?thesis by (simp add: adjust_inventory_def)
next
  case (Some row)
  show ?thesis
  proof (cases "inv_quantity row + change < 0")
    case True
    with Some assms show ?thesis by (simp add: adjust_inventory_def)
  next
    case False
    have "fst (adjust_inventory db now v change nt)
        = fst (update_inventory db now v (inv_quantity row + change)
                 (Some ''ADJUSTMENT'') None nt)"
      using Some False
      by (simp add: adjust_inventory_def Let_def split: prod.splits sum.splits)
    with ledger_agrees_update_inventory [OF assms] show ?thesis by simp
  qed
qed

lemma ledger_agrees_create_sale:
  assumes "ledger_agrees db"
  shows "ledger_agrees (fst (create_sale db now s))"
proof (cases "create_sale_body db now s")
  case (Inl e)
  with assms show ?thesis by (simp add: create_sale_def transaction_def)
next
  case (Inr res)
  then obtain dbA sid db' where
    ins: "sql_insert_sale db (customer_id s) (sale_date s) (payment_method s) (total_amount s)
            = Inr (dbA, sid)"
    and sell: "sell_items dbA now sid (items s) = Inr db'" and res: "res = (db', sid)"
    by (auto simp: create_sale_body_def split: sum.splits prod.splits)
  from ins have "inventory dbA = inventory db"
    "inventory_transactions dbA = inventory_transactions db"
    by (auto simp: sql_insert_sale_def split: if_splits option.splits)
  from ledger_agrees_cong [OF this] assms have "ledger_agrees dbA" by simp
  from ledger_agrees_sell_items [OF this sell] Inr res
  show ?thesis by (simp add: create_sale_def transaction_def)
qed

lemma ledger_agrees_cancel_sale:
  assumes "ledger_agrees db"
  shows "ledger_agrees (fst (cancel_sale db now sid))"
proof (cases "cancel_sale_body db now sid")
  case (Inl e)
  with assms show ?thesis by (simp add: cancel_sale_def transaction_def)
next
  case (Inr res)
  then obtain S dbR where got: "get_sale db now sid = Some S"
    and restore: "restore_items db now sid (items S) = Inr dbR"
    and res: "res = (sql_delete_sale (sql_delete_sale_items dbR sid) sid, True)"
    by (auto simp: cancel_sale_body_def split: option.splits sum.splits)
  have "ledger_agrees (sql_delete_sale (sql_delete_sale_items dbR sid) sid) = ledger_agrees dbR"
    by (rule ledger_agrees_cong) (simp_all add: sql_delete_sale_def sql_delete_sale_items_def)
  with ledger_agrees_restore_items [OF assms restore] Inr res
  show ?thesis by (simp add: cancel_sale_def transaction_def)
qed

lemma select_quantity_delete:
  "inventory db' = filter (\<lambda>r. inv_variant_id r \<noteq> v) (inventory db) \<Longrightarrow>
   select_quantity db' v' = (if v' = v then None else select_quantity db v')"
proof -
  have 1: "filter (\<lambda>r. inv_variant_id r = v') (filter (\<lambda>r. inv_variant_id r \<noteq> v) xs)
      = (if v' = v then [] else filter (\<lambda>r. inv_variant_id r = v') xs)" for xs
    by (induction xs) auto
  assume 2: "inventory db' = filter (\<lambda>r. inv_variant_id r \<noteq> v) (inventory db)"
  show ?thesis
    unfolding select_quantity_def select_inventory_def 2 1 by simp
qed

lemma ledger_agrees_delete_variant:
  assumes "ledger_agrees db"
  shows "ledger_agrees (fst (delete_variant db v))"
proof (cases "snd (delete_variant db v)")
  case (Inl e)
  then have "fst (delete_variant db v) = db"
    by (auto simp: delete_variant_def transaction_def Let_def split: sum.splits if_splits)
  with assms show ?thesis by simp
next
  case (Inr r)
  then obtain dbD where res: "sql_delete_product_variant (sql_delete_inventory db v) v = Inr dbD"
    and eq: "fst (delete_variant db v) = dbD"
    by (auto simp: delete_variant_def transaction_def Let_def split: sum.splits if_splits)
  from res have "inventory dbD = filter (\<lambda>r. inv_variant_id r \<noteq> v) (inventory db)"
    "inventory_transactions dbD = inventory_transactions db"
    by (auto simp: sql_delete_product_variant_def sql_delete_inventory_def split: if_splits)
  with eq have inv: "inventory (fst (delete_variant db v))
      = filter (\<lambda>r. inv_variant_id r \<noteq> v) (inventory db)"
    and txs: "inventory_transactions (fst (delete_variant db v)) = inventory_transactions db"
    by simp_all
  from assms show ?thesis
    by (auto simp: ledger_agrees_def select_quantity_delete [OF inv] ledger_sum_cong [OF txs]
          split: if_splits)
qed

text \<open>A new variant: its id is above the counter, so no stored row refers to it.\<close>

lemma select_quantity_insert:
  "inventory db' = inventory db @ [\<lparr>inv_id = n, inv_variant_id = v, inv_quantity = q,
       inv_last_updated = now\<rparr>] \<Longrightarrow>
   select_quantity db' v'
     = (case select_quantity db v' of Some c \<Rightarrow> Some c
        | None \<Rightarrow> if v' = v then Some q else None)"
  by (cases "filter (\<lambda>r. inv_variant_id r = v') (inventory db)")
     (auto simp: select_quantity_def select_inventory_def)

lemma fresh_variant_unreferenced:
  assumes "schema_holds db"
  shows "select_quantity db (seq_product_variants db + 1) = None"
    and "ledger_sum db (seq_product_variants db + 1) = 0"
proof -
  from assms have "\<forall>x\<in>set (variant_ids db). x \<noteq> seq_product_variants db + 1"
    by (auto simp: schema_holds_def variant_ids_def)
  with assms have "\<forall>r\<in>set (inventory db). inv_variant_id r \<noteq> seq_product_variants db + 1"
    "\<forall>t\<in>set (inventory_transactions db). tx_variant_id t \<noteq> seq_product_variants db + 1"
    by (auto simp: schema_holds_def)
  then have "filter (\<lambda>r. inv_variant_id r = seq_product_variants db + 1) (inventory db) = []"
    "filter (\<lambda>t. tx_variant_id t = seq_product_variants db + 1) (inventory_transactions db) = []"
    by (simp_all add: filter_empty_conv)
  then show "select_quantity db (seq_product_variants db + 1) = None"
    "ledger_sum db (seq_product_variants db + 1) = 0"
    by (simp_all add: select_quantity_def select_inventory_def ledger_sum_def)
qed

lemma ledger_agrees_new_variant:
  assumes "schema_holds db" and "ledger_agrees db"
    and 1: "sql_insert_product_variant db product sz color = Inr (db1, vid)"
    and 2: "sql_insert_inventory db1 vid 0 now = Inr db2"
  shows "ledger_agrees db2"
proof -
  from insert_product_variant_Inr [OF 1] have vid: "vid = seq_product_variants db + 1"
    and inv1: "inventory db1 = inventory db"
    and txs1: "inventory_transactions db1 = inventory_transactions db"
    and seq1: "seq_inventory db1 = seq_inventory db"
    by auto
  from insert_inventory_Inr [OF 2] inv1 txs1 seq1
  have inv2: "inventory db2 = inventory db @
      [\<lparr>inv_id = seq_inventory db + 1, inv_variant_id = vid, inv_quantity = 0,
        inv_last_updated = now\<rparr>]"
    and txs2: "inventory_transactions db2 = inventory_transactions db"
    by auto
  from assms(2) fresh_variant_unreferenced [OF assms(1)] show ?thesis
    by (auto simp: ledger_agrees_def select_quantity_insert [OF inv2] ledger_sum_cong [OF txs2]
          vid split: option.splits if_splits)
qed

lemma ledger_agrees_insert_variants:
  "schema_holds db \<Longrightarrow> ledger_agrees db \<Longrightarrow> insert_variants db now p vs = Inr db' \<Longrightarrow>
   ledger_agrees db'"
proof (induction vs arbitrary: db)
  case Nil
  then show ?case by simp
next
  case (Cons v rest)
  from Cons.prems(3) obtain db1 vid db2 where
    1: "sql_insert_product_variant db (Some p) (variant_size v) (variant_color v) = Inr (db1, vid)"
    and 2: "sql_insert_inventory db1 vid 0 now = Inr db2"
    and 3: "insert_variants db2 now p rest = Inr db'"
    by (auto split: sum.splits prod.splits)
  from schema_holds_insert_inventory [OF schema_holds_insert_product_variant [OF Cons.prems(1) 1] 2]
  have "schema_holds db2" .
  from Cons.IH [OF this ledger_agrees_new_variant [OF Cons.prems(1,2) 1 2] 3] show ?case .
qed

lemma ledger_agrees_add_product:
  assumes "schema_holds db" and "ledger_agrees db"
  shows "ledger_agrees (fst (add_product db now p vs))"
proof (cases "sql_insert_product db p now")
  case (Inl e)
  with assms show ?thesis by (simp add: add_product_def transaction_def)
next
  case (Inr res)
  then obtain db1 pid where 1: "sql_insert_product db p now = Inr (db1, pid)"
    by (cases res) auto
  then have "inventory db1 = inventory db"
    "inventory_transactions db1 = inventory_transactions db"
    by (auto simp: sql_insert_product_def split: option.splits if_splits)
  from ledger_agrees_cong [OF this] assms(2) have agrees1: "ledger_agrees db1" by simp
  show ?thesis
  proof (cases "insert_variants db1 now pid vs")
    case (Inl e)
    with 1 assms show ?thesis by (simp add: add_product_def transaction_def)
  next
    case (Inr db2)
    from ledger_agrees_insert_variants [OF schema_holds_insert_product [OF assms(1) 1] agrees1 Inr]
      1 Inr
    show ?thesis by (simp add: add_product_def transaction_def)
  qed
qed

lemma ledger_agrees_add_variant_zero:
  assumes "schema_holds db" and "ledger_agrees db" and "inventory_quantity v = 0"
  shows "ledger_agrees (fst (add_variant db now v))"
proof (cases "snd (add_variant db now v)")
  case (Inl e)
  then have "fst (add_variant db now v) = db"
    by (auto simp: add_variant_def transaction_def split: sum.splits prod.splits option.splits)
  with assms show ?thesis by simp
next
  case (Inr vid)
  then obtain db1 vid1 db2 where
    1: "sql_insert_product_variant db (product_id v) (variant_size v) (variant_color v)
          = Inr (db1, vid1)"
    and 2: "sql_insert_inventory db1 vid1 (inventory_quantity v) now = Inr db2"
    and 3: "fst (add_variant db now v) = db2"
    by (auto simp: add_variant_def transaction_def split: sum.splits prod.splits option.splits)
  from ledger_agrees_new_variant [OF assms(1,2) 1] 2 assms(3) 3 show ?thesis by simp
qed

section \<open>Signs of the stored quantities\<close>

lemma select_quantity_Some_mem:
  "select_quantity db v = Some q \<Longrightarrow> \<exists>r\<in>set (inventory db). inv_quantity r = q"
  by (auto simp: select_quantity_def select_inventory_def dest!: fetchone_SomeD)

lemma nonneg_set_quantity:
  "0 \<le> q \<Longrightarrow> \<forall>r\<in>set xs. 0 \<le> inv_quantity r
   \<Longrightarrow> \<forall>r\<in>set (map (set_quantity v q now) xs). 0 \<le> inv_quantity r"
  by (auto simp: set_quantity_def)

lemma check_stock_Inr:
  "check_stock db its = Inr u \<Longrightarrow>
     \<forall>i\<in>set its. \<exists>c. select_quantity db (product_variant_id i) = Some c \<and> quantity i \<le> c"
  by (induction its) (auto split: option.splits if_splits prod.splits)

lemma sell_items_stock_nonneg:
  "sell_items db now sid its = Inr db' \<Longrightarrow> distinct (map product_variant_id its) \<Longrightarrow>
   \<forall>i\<in>set its. \<exists>c. select_quantity db (product_variant_id i) = Some c \<and> quantity i \<le> c \<Longrightarrow>
   \<forall>r\<in>set (inventory db). 0 \<le> inv_quantity r \<Longrightarrow>
   \<forall>r\<in>set (inventory db'). 0 \<le> inv_quantity r"
proof (induction its arbitrary: db)
  case Nil
  then show ?case by simp
next
  case (Cons i rest)
  from sell_items_Cons_Inr [OF Cons.prems(1)] obtain db1
    where 1: "sell_item db now sid i = Inr db1" and 2: "sell_items db1 now sid rest = Inr db'"
    by blast
  from sell_item_Inr [OF 1] obtain q where
    q: "select_quantity db (product_variant_id i) = Some q"
    and inv: "inventory db1 = map (set_quantity (product_variant_id i) (q - quantity i) now)
                               (inventory db)"
    by auto
  from Cons.prems(3) q have "0 \<le> q - quantity i" by auto
  from nonneg_set_quantity [OF this Cons.prems(4)] inv
  have stock1: "\<forall>r\<in>set (inventory db1). 0 \<le> inv_quantity r" by simp
  have rest1: "\<forall>j\<in>set rest. \<exists>c. select_quantity db1 (product_variant_id j) = Some c
                  \<and> quantity j \<le> c"
  proof
    fix j assume j: "j \<in> set rest"
    with Cons.prems(2) have "product_variant_id j \<noteq> product_variant_id i"
      by (auto simp: image_iff)
    moreover from j Cons.prems(3) obtain c
      where "select_quantity db (product_variant_id j) = Some c" "quantity j \<le> c" by auto
    ultimately show "\<exists>c. select_quantity db1 (product_variant_id j) = Some c \<and> quantity j \<le> c"
      by (simp add: sell_item_select_quantity [OF 1])
  qed
  from Cons.prems(2) have "distinct (map product_variant_id rest)" by simp
  from Cons.IH [OF 2 this rest1 stock1] show ?case .
qed

lemma sell_items_sold_nonneg:
  assumes "sell_items db now sid its = Inr db'"
    and "\<forall>i\<in>set its. 0 \<le> quantity i"
    and "\<forall>si\<in>set (sale_items db). 0 \<le> si_quantity si"
  shows "\<forall>si\<in>set (sale_items db'). 0 \<le> si_quantity si"
proof -
  from sell_items_sale_items [OF assms(1)] obtain new where
    items': "sale_items db' = sale_items db @ new"
    and new: "map (\<lambda>r. (si_sale_id r, si_variant_id r, si_quantity r, si_unit_price r,
                   si_discount_percent r, si_subtotal r)) new
         = map (\<lambda>i. (sid, product_variant_id i, quantity i, unit_price i,
                     discount_percent i, subtotal i)) its"
    by auto
  have "map si_quantity new = map quantity its"
    using arg_cong [OF new, of "map (fst \<circ> snd \<circ> snd)"] by (simp add: comp_def)
  have "\<forall>si\<in>set new. 0 \<le> si_quantity si"
  proof
    fix si assume "si \<in> set new"
    then have "si_quantity si \<in> set (map si_quantity new)" by simp
    then have "si_quantity si \<in> set (map quantity its)"
      unfolding \<open>map si_quantity new = map quantity its\<close> .
    with assms(2) show "0 \<le> si_quantity si" by auto
  qed
  with assms(3) items' show ?thesis by auto
qed

lemma restore_items_stock_nonneg:
  "restore_items db now sid its = Inr db' \<Longrightarrow> \<forall>i\<in>set its. 0 \<le> quantity i \<Longrightarrow>
   \<forall>r\<in>set (inventory db). 0 \<le> inv_quantity r \<Longrightarrow>
   \<forall>r\<in>set (inventory db'). 0 \<le> inv_quantity r"
proof (induction its arbitrary: db)
  case Nil
  then show ?case by simp
next
  case (Cons i rest)
  from restore_items_Cons_Inr [OF Cons.prems(1)] obtain db1
    where 1: "restore_item db now sid i = Inr db1"
      and 2: "restore_items db1 now sid rest = Inr db'"
    by blast
  from restore_item_Inr [OF 1] obtain q where
    q: "select_quantity db (product_variant_id i) = Some q"
    and inv: "inventory db1 = map (set_quantity (product_variant_id i) (q + quantity i) now)
                               (inventory db)"
    by auto
  from select_quantity_Some_mem [OF q] Cons.prems(3) have "0 \<le> q" by auto
  with Cons.prems(2) have "0 \<le> q + quantity i" by simp
  from nonneg_set_quantity [OF this Cons.prems(3)] inv
  have stock1: "\<forall>r\<in>set (inventory db1). 0 \<le> inv_quantity r" by simp
  from Cons.prems(2) have "\<forall>j\<in>set rest. 0 \<le> quantity j" by simp
  from Cons.IH [OF 2 this stock1] show ?case .
qed

lemma select_sale_items_subset: "set (select_sale_items db sid) \<subseteq> set (sale_items db)"
  by (auto simp: select_sale_items_def)

lemma update_inventory_nonneg:
  assumes "0 \<le> q"
    and "\<forall>r\<in>set (inventory db). 0 \<le> inv_quantity r"
    and "\<forall>si\<in>set (sale_items db). 0 \<le> si_quantity si"
  shows "(\<forall>r\<in>set (inventory (fst (update_inventory db now v q ty rf nt))). 0 \<le> inv_quantity r)
     \<and> (\<forall>si\<in>set (sale_items (fst (update_inventory db now v q ty rf nt))). 0 \<le> si_quantity si)"
proof (cases "update_inventory_body db now v q ty rf nt")
  case (Inl e)
  with assms show ?thesis by (simp add: update_inventory_def transaction_def)
next
  case (Inr res)
  then obtain db' where db': "sql_insert_inventory_transaction (sql_update_inventory db v q now) v
      (q - inv_quantity (the (get_inventory db v))) ty rf now nt = Inr db'" and res: "res = (db', True)"
    by (auto simp: update_inventory_body_def Let_def split: option.splits sum.splits)
  from insert_tx_Inr [OF db'] have "inventory db' = map (set_quantity v q now) (inventory db)"
    "sale_items db' = sale_items db"
    by (auto simp: sql_update_inventory_def)
  with Inr res assms nonneg_set_quantity [OF assms(1,2)] show ?thesis
    by (simp add: update_inventory_def transaction_def)
qed

lemma adjust_inventory_nonneg:
  assumes "\<forall>r\<in>set (inventory db). 0 \<le> inv_quantity r"
    and "\<forall>si\<in>set (sale_items db). 0 \<le> si_quantity si"
  shows "(\<forall>r\<in>set (inventory (fst (adjust_inventory db now v change nt))). 0 \<le> inv_quantity r)
     \<and> (\<forall>si\<in>set (sale_items (fst (adjust_inventory db now v change nt))). 0 \<le> si_quantity si)"
proof (cases "get_inventory db v")
  case None
  with assms show ?thesis by (simp add: adjust_inventory_def)
next
  case (Some row)
  show ?thesis
  proof (cases "inv_quantity row + change < 0")
    case True
    with Some assms show ?thesis by (simp add: adjust_inventory_def)
  next
    case False
    then have "0 \<le> inv_quantity row + change" by simp
    have "fst (adjust_inventory db now v change nt)
        = fst (update_inventory db now v (inv_quantity row + change)
                 (Some ''ADJUSTMENT'') None nt)"
      using Some False
      by (simp add: adjust_inventory_def Let_def split: prod.splits sum.splits)
    with update_inventory_nonneg [OF \<open>0 \<le> inv_quantity row + change\<close> assms]
    show ?thesis by simp
  qed
qed

lemma create_sale_nonneg:
  assumes "distinct (map product_variant_id (items s))"
    and "\<forall>i\<in>set (items s). 0 \<le> quantity i"
    and "\<forall>r\<in>set (inventory db). 0 \<le> inv_quantity r"
    and "\<forall>si\<in>set (sale_items db). 0 \<le> si_quantity si"
  shows "(\<forall>r\<in>set (inventory (fst (create_sale db now s))). 0 \<le> inv_quantity r)
     \<and> (\<forall>si\<in>set (sale_items (fst (create_sale db now s))). 0 \<le> si_quantity si)"
proof (cases "snd (create_sale db now s)")
  case (Inl e)
  then have "fst (create_sale db now s) = db"
    by (auto simp: create_sale_def transaction_def split: sum.splits prod.splits)
  with assms show ?thesis by simp
next
  case (Inr sid)
  then have created: "create_sale db now s = (fst (create_sale db now s), Inr sid)"
    by (simp add: prod_eq_iff)
  define dbA where "dbA = db\<lparr>sales := sales db @
           [\<lparr>s_id = seq_sales db + 1, s_customer_id = customer_id s,
             s_sale_date = the (sale_date s), s_payment_method = the (payment_method s),
             s_total_amount = the (total_amount s)\<rparr>],
         seq_sales := seq_sales db + 1\<rparr>"
  from create_sale_Inr [OF created]
  have chk: "check_stock db (items s) = Inr ()"
    and sell: "sell_items dbA now sid (items s) = Inr (fst (create_sale db now s))"
    unfolding dbA_def by blast+
  have "\<forall>i\<in>set (items s). \<exists>c. select_quantity dbA (product_variant_id i) = Some c
      \<and> quantity i \<le> c"
    using check_stock_Inr [OF chk]
    by (simp add: dbA_def select_quantity_def select_inventory_def)
  moreover have "\<forall>r\<in>set (inventory dbA). 0 \<le> inv_quantity r"
    "\<forall>si\<in>set (sale_items dbA). 0 \<le> si_quantity si"
    using assms(3,4) by (simp_all add: dbA_def)
  ultimately show ?thesis
    using sell_items_stock_nonneg [OF sell assms(1)] sell_items_sold_nonneg [OF sell assms(2)]
    by blast
qed

lemma cancel_sale_nonneg:
  assumes "\<forall>r\<in>set (inventory db). 0 \<le> inv_quantity r"
    and "\<forall>si\<in>set (sale_items db). 0 \<le> si_quantity si"
  shows "(\<forall>r\<in>set (inventory (fst (cancel_sale db now sid))). 0 \<le> inv_quantity r)
     \<and> (\<forall>si\<in>set (sale_items (fst (cancel_sale db now sid))). 0 \<le> si_quantity si)"
proof (cases "cancel_sale_body db now sid")
  case (Inl e)
  with assms show ?thesis by (simp add: cancel_sale_def transaction_def)
next
  case (Inr res)
  then obtain S dbR where got: "get_sale db now sid = Some S"
    and restore: "restore_items db now sid (items S) = Inr dbR"
    and res: "res = (sql_delete_sale (sql_delete_sale_items dbR sid) sid, True)"
    by (auto simp: cancel_sale_body_def split: option.splits sum.splits)
  from got have "items S = map (\<lambda>item_data. SaleItem (si_variant_id item_data)
        (si_quantity item_data) (si_unit_price item_data)
        (si_discount_percent item_data) (si_subtotal item_data)) (select_sale_items db sid)"
    by (auto simp: get_sale_def split: option.splits)
  with assms(2) select_sale_items_subset [of db sid]
  have "\<forall>i\<in>set (items S). 0 \<le> quantity i" by auto
  from restore_items_stock_nonneg [OF restore this assms(1)]
  have "\<forall>r\<in>set (inventory dbR). 0 \<le> inv_quantity r" .
  moreover from restore_items_frame [OF restore] assms(2)
  have "\<forall>si\<in>set (sale_items dbR). 0 \<le> si_quantity si" by simp
  ultimately show ?thesis
    using Inr res
    by (simp add: cancel_sale_def transaction_def sql_delete_sale_def sql_delete_sale_items_def)
qed

lemma apply_operation_nonneg:
  assumes "within_contract op"
    and "\<forall>r\<in>set (inventory db). 0 \<le> inv_quantity r"
    and "\<forall>si\<in>set (sale_items db). 0 \<le> si_quantity si"
  shows "(\<forall>r\<in>set (inventory (apply_operation db op)). 0 \<le> inv_quantity r)
     \<and> (\<forall>si\<in>set (sale_items (apply_operation db op)). 0 \<le> si_quantity si)"
proof (cases op)
  case (UpdateInventory now v q ty rf nt)
  with assms update_inventory_nonneg [of q db now v ty rf nt] show ?thesis
    by (simp add: within_contract_def)
next
  case (AdjustInventory now v change nt)
  with adjust_inventory_nonneg [OF assms(2,3)] show ?thesis by simp
next
  case (CreateSale now s)
  with assms create_sale_nonneg [of s db now] show ?thesis
    by (simp add: within_contract_def)
next
  case (CancelSale now sid)
  with cancel_sale_nonneg [OF assms(2,3)] show ?thesis by simp
qed

section \<open>Claims about the inventory ledger\<close>

text \<open>
  C7. \<open>adjust_inventory(variant_id, delta)\<close> on a variant whose current quantity plus \<open>delta\<close>
  is below 0 raises the negative-quantity error ("La cantidad de inventario no puede ser
  negativa"), and the database it leaves is the one it was called in: the quantity of the
  variant and the table of inventory transactions are unchanged.
\<close>

theorem adjust_inventory_negative:
  assumes "get_inventory db v = Some row" and "inv_quantity row + delta < 0"
  shows "adjust_inventory db now v delta notes
           = (db, Inl (Wrapped AdjustingInventory NegativeQuantity))
       \<and> select_quantity (fst (adjust_inventory db now v delta notes)) v = select_quantity db v
       \<and> inventory_transactions (fst (adjust_inventory db now v delta notes))
           = inventory_transactions db"
  using assms by (simp add: adjust_inventory_def)

theorem adjust_inventory_negative_witness:
  "get_inventory shop 2 = Some \<lparr>inv_id = 2, inv_variant_id = 2, inv_quantity = 3,
       inv_last_updated = ''2024-01-02T09:05:00''\<rparr>
   \<and> adjust_inventory shop ''2024-01-03T10:00:00'' 2 (- 4) None
         = (shop, Inl (Wrapped AdjustingInventory NegativeQuantity))"
proof -
  have h: "get_inventory shop 2 = Some \<lparr>inv_id = 2, inv_variant_id = 2, inv_quantity = 3,
       inv_last_updated = ''2024-01-02T09:05:00''\<rparr>"
    by (simp add: get_inventory_def select_inventory_def fetchone_def shop_def)
  show ?thesis
    using h adjust_inventory_negative [OF h, of "- 4" "''2024-01-03T10:00:00''" None] by simp
qed

section \<open>Claims about sale creation\<close>

text \<open>
  C2, as stated, fails: the first loop of \<open>create_sale\<close> raises at the first line item that
  does not pass, so a call whose second item asks for more than its stock and whose first item
  has no inventory row ends with the not-found error, not with the insufficient-stock error.
\<close>

theorem create_sale_insufficient_after_missing:
  "select_quantity shop 2 = Some 3 \<and>
   create_sale shop ''2024-01-05T12:00:01''
       (two_items (SaleItem 9 1 20 0 0) (SaleItem 2 5 20 0 0))
     = (shop, Inl (Wrapped CreatingSale ProductNotInInventory))"
  by (simp add: shop_eval)

text \<open>
  C2, amended. In a state that satisfies the schema, when a line item asks for more than the
  available quantity of its variant and every line item before it has an inventory row with
  enough stock, \<open>create_sale\<close> fails with the insufficient-stock error carrying the available and
  the requested quantity of that item, and the database it leaves is the one it was called in
  (no Sale, SaleItem, Inventory or InventoryTransaction row differs): the check of every item
  comes before the first write.
\<close>

theorem create_sale_insufficient_stock:
  assumes "schema_holds db"
    and "items s = pre @ item # post"
    and "\<forall>i\<in>set pre. \<exists>q. select_quantity db (product_variant_id i) = Some q \<and> quantity i \<le> q"
    and "select_quantity db (product_variant_id item) = Some available"
    and "available < quantity item"
  shows "\<exists>product_name product_color product_size.
     create_sale db now s =
       (db, Inl (Wrapped CreatingSale
                  (InsufficientStock product_name product_color product_size
                     available (quantity item))))"
proof -
  from assms(1,4) have "product_variant_id item \<in> set (variant_ids db)"
    by (auto simp: schema_holds_def dest!: select_quantity_SomeD)
  with assms(1) have "select_variant_info db (product_variant_id item) \<noteq> []"
    by (rule variant_info_exists)
  then obtain n z c
    where "fetchone (select_variant_info db (product_variant_id item)) = Some (n, z, c)"
    by (cases "select_variant_info db (product_variant_id item)") (auto simp: fetchone_def)
  with assms show ?thesis
    by (simp add: create_sale_def create_sale_body_def transaction_def check_stock_append_ok)
qed

theorem create_sale_insufficient_stock_witness:
  "schema_holds shop \<and>
   (\<exists>product_name product_color product_size.
     create_sale shop ''2024-01-05T12:00:01''
         (two_items (SaleItem 1 4 20 0 0) (SaleItem 2 5 20 0 0))
       = (shop, Inl (Wrapped CreatingSale
                  (InsufficientStock product_name product_color product_size 3 5))))"
  using schema_holds_shop
    create_sale_insufficient_stock [OF schema_holds_shop,
      of "two_items (SaleItem 1 4 20 0 0) (SaleItem 2 5 20 0 0)"
         "[SaleItem 1 4 20 0 0]" "SaleItem 2 5 20 0 0" "[]" 3 "''2024-01-05T12:00:01''"]
  by (simp add: two_items_def SaleItem_def calculate_subtotal_def select_quantity_def
        select_inventory_def fetchone_def shop_def)

text \<open>
  C8, as stated, fails for the same reason: a call whose first item asks for more than its
  stock and whose second item has no inventory row ends with the insufficient-stock error.
\<close>

theorem create_sale_missing_after_insufficient:
  "select_quantity shop 9 = None \<and>
   create_sale shop ''2024-01-05T12:00:01''
       (two_items (SaleItem 2 5 20 0 0) (SaleItem 9 1 20 0 0))
     = (shop, Inl (Wrapped CreatingSale (InsufficientStock ''Camiseta'' ''Azul'' ''L'' 3 5)))"
  by (simp add: shop_eval)

text \<open>
  C8, amended. When a line item's variant has no inventory row and every line item before it
  has an inventory row with enough stock, \<open>create_sale\<close> fails with the not-found error
  ("Producto no encontrado en el inventario"), not with the insufficient-stock error, and the
  database it leaves is the one it was called in: no Sale, SaleItem, Inventory or
  InventoryTransaction row is written.
\<close>

theorem create_sale_no_inventory_row:
  assumes "items s = pre @ item # post"
    and "\<forall>i\<in>set pre. \<exists>q. select_quantity db (product_variant_id i) = Some q \<and> quantity i \<le> q"
    and "select_quantity db (product_variant_id item) = None"
  shows "create_sale db now s = (db, Inl (Wrapped CreatingSale ProductNotInInventory))"
  using assms
  by (simp add: create_sale_def create_sale_body_def transaction_def check_stock_append_ok)

theorem create_sale_no_inventory_row_witness:
  "select_quantity shop 9 = None \<and>
   create_sale shop ''2024-01-05T12:00:01''
       (two_items (SaleItem 1 4 20 0 0) (SaleItem 9 1 20 0 0))
     = (shop, Inl (Wrapped CreatingSale ProductNotInInventory))"
  using create_sale_no_inventory_row [of "two_items (SaleItem 1 4 20 0 0) (SaleItem 9 1 20 0 0)"
     "[SaleItem 1 4 20 0 0]" "SaleItem 9 1 20 0 0" "[]" shop "''2024-01-05T12:00:01''"]
  by (simp add: two_items_def SaleItem_def calculate_subtotal_def select_quantity_def
        select_inventory_def fetchone_def shop_def)

text \<open>
  C10, as stated, fails: \<open>sales.customer_id\<close> references \<open>customers(id)\<close> and the connection
  enforces foreign keys, so a sale without items whose \<open>customer_id\<close> names no customer raises
  at the \<^verbatim>\<open>INSERT INTO sales\<close>.
\<close>

theorem create_sale_empty_unknown_customer:
  "create_sale shop ''2024-01-05T12:00:01'' (empty_sale (Some 7))
     = (shop, Inl (Wrapped CreatingSale (ExecutingQuery ForeignKeyFailed)))"
  by (simp add: create_sale_def create_sale_body_def transaction_def sql_insert_sale_def
        shop_def empty_sale_def)

text \<open>
  It fails as well when the Sale object carries no value for a \<^verbatim>\<open>NOT NULL\<close> column: a sale
  without items whose \<open>sale_date\<close>, \<open>payment_method\<close> or \<open>total_amount\<close> is \<^verbatim>\<open>None\<close> (or whose
  \<open>total_amount\<close> is NaN) passes the stock check, raises at the \<^verbatim>\<open>INSERT INTO sales\<close> and leaves
  the database as it was.
\<close>

lemma create_sale_empty_null:
  assumes "items s = []"
    and "sale_date s = None \<or> payment_method s = None \<or> total_amount s = None"
  shows "create_sale db now s = (db, Inl (Wrapped CreatingSale (ExecutingQuery NotNullFailed)))"
  using assms
  by (auto simp: create_sale_def create_sale_body_def transaction_def sql_insert_sale_def
        split: option.splits)

lemma create_sale_empty_no_payment_method:
  "create_sale shop ''2024-01-05T12:00:01'' ((empty_sale None)\<lparr>payment_method := None\<rparr>)
     = (shop, Inl (Wrapped CreatingSale (ExecutingQuery NotNullFailed)))"
  by (simp add: create_sale_def create_sale_body_def transaction_def sql_insert_sale_def
        empty_sale_def)

lemma create_sale_empty_no_total:
  "create_sale shop ''2024-01-05T12:00:01'' ((empty_sale (Some 1))\<lparr>total_amount := None\<rparr>)
     = (shop, Inl (Wrapped CreatingSale (ExecutingQuery NotNullFailed)))"
  by (simp add: create_sale_def create_sale_body_def transaction_def sql_insert_sale_def
        empty_sale_def)

text \<open>
  C10, amended. For a Sale whose items list is empty, whose \<open>sale_date\<close>, \<open>payment_method\<close> and
  \<open>total_amount\<close> are set (none of them \<^verbatim>\<open>None\<close>, the total not NaN) and whose \<open>customer_id\<close> is
  null or names an existing customer, \<open>create_sale\<close> does not raise: it appends exactly one Sale
  row, with the caller-supplied date, payment method and \<open>total_amount\<close>, changes nothing else
  in the database (no SaleItem row, no InventoryTransaction row, no Inventory quantity), and
  returns the new sale id.
\<close>

theorem create_sale_empty:
  assumes "items s = []"
    and "sale_date s = Some d"
    and "payment_method s = Some m"
    and "total_amount s = Some a"
    and "customer_id s = None
         \<or> (\<exists>c. customer_id s = Some c \<and> c \<in> set (map cust_id (customers db)))"
  shows "create_sale db now s =
     (db\<lparr>sales := sales db @
           [\<lparr>s_id = seq_sales db + 1, s_customer_id = customer_id s, s_sale_date = d,
             s_payment_method = m, s_total_amount = a\<rparr>],
         seq_sales := seq_sales db + 1\<rparr>,
      Inr (seq_sales db + 1))"
  using assms
  by (auto simp: create_sale_def create_sale_body_def transaction_def sql_insert_sale_def)

theorem create_sale_empty_witness:
  "items (empty_sale (Some 1)) = [] \<and>
   sale_date (empty_sale (Some 1)) = Some ''2024-01-05T12:00:00'' \<and>
   payment_method (empty_sale (Some 1)) = Some ''EFECTIVO'' \<and>
   total_amount (empty_sale (Some 1)) = Some 15 \<and>
   customer_id (empty_sale (Some 1)) = Some 1 \<and>
   1 \<in> set (map cust_id (customers shop)) \<and>
   create_sale shop ''2024-01-05T12:00:01'' (empty_sale (Some 1))
     = (shop\<lparr>sales := [\<lparr>s_id = 1, s_customer_id = Some 1, s_sale_date = ''2024-01-05T12:00:00'',
                s_payment_method = ''EFECTIVO'', s_total_amount = 15\<rparr>],
            seq_sales := 1\<rparr>, Inr 1)"
  using create_sale_empty [where s = "empty_sale (Some 1)" and d = "''2024-01-05T12:00:00''"
      and m = "''EFECTIVO''" and a = 15 and db = shop and now = "''2024-01-05T12:00:01''"]
  by (simp add: shop_def empty_sale_def)

section \<open>Claims about the customer directory\<close>

text \<open>
  C9. \<open>delete_customer\<close> always succeeds. Afterwards every Sale row that referenced the
  customer is still there, with \<open>customer_id\<close> null and every other field, \<open>total_amount\<close>
  included, as before; the other Sale rows and every other table but \<open>customers\<close>, so every
  SaleItem row, are unchanged.
\<close>

theorem delete_customer_keeps_sales:
  "delete_customer db c =
     (db\<lparr>customers := filter (\<lambda>r. cust_id r \<noteq> c) (customers db),
         sales := map (\<lambda>s. if s_customer_id s = Some c then s\<lparr>s_customer_id := None\<rparr> else s)
                      (sales db)\<rparr>,
      Inr True)"
proof -
  have "(\<lambda>s. if s_customer_id s = Some c then s\<lparr>s_customer_id := None\<rparr> else s)
          = null_customer c"
    by (auto simp: null_customer_def fun_eq_iff)
  then show ?thesis
    by (simp add: delete_customer_eq)
qed

theorem delete_customer_keeps_sales_witness:
  "delete_customer (shop\<lparr>sales := [ana_sale], seq_sales := 1\<rparr>) 1
     = (shop\<lparr>customers := [], sales := [ana_sale\<lparr>s_customer_id := None\<rparr>], seq_sales := 1\<rparr>,
        Inr True)"
  using delete_customer_keeps_sales [of "shop\<lparr>sales := [ana_sale], seq_sales := 1\<rparr>" 1]
  by (simp add: shop_def ana_sale_def)

section \<open>Claims about sale creation followed by cancellation\<close>



section \<open>Claims about the stored amounts\<close>

text \<open>
  C5, as stated, fails: \<open>create_sale\<close> computes no amount. It stores the \<open>total_amount\<close> of the
  Sale object it is given; a Sale whose items were assigned directly (as \<open>two_items\<close> does, with
  \<open>total_amount\<close> 0) is stored with that total, here 0, while its line items add up to 100.
\<close>

theorem create_sale_stores_given_total:
  "snd (create_sale shop ''2024-01-05T12:00:01''
          (two_items (SaleItem 1 4 20 0 0) (SaleItem 2 1 20 0 0))) = Inr 1
   \<and> map s_total_amount (sales (fst (create_sale shop ''2024-01-05T12:00:01''
          (two_items (SaleItem 1 4 20 0 0) (SaleItem 2 1 20 0 0))))) = [0]
   \<and> calculate_subtotal (SaleItem 1 4 20 0 0) + calculate_subtotal (SaleItem 2 1 20 0 0) = 100"
  by (simp add: run_eval two_items_def shop_def)

text \<open>
  C5, amended. For every sale persisted by \<open>create_sale\<close>, the stored \<open>Sale.total_amount\<close> is
  the \<open>total_amount\<close> of the caller's Sale object and each stored \<open>SaleItem.subtotal\<close> is the
  \<open>subtotal\<close> of the caller's item, unchanged. So the stored total is the sum of the stored
  subtotals whenever the caller's total is the one \<open>Sale.recalculate_total\<close> computes (as
  \<open>add_item\<close> leaves it), and a stored subtotal is its own
  quantity \<times> unit_price \<times> (1 - discount_percent/100) whenever the item is as the \<open>SaleItem\<close>
  constructor built it from a supplied subtotal that is not positive.
\<close>

theorem create_sale_stores_amounts:
  assumes "create_sale db now s = (db', Inr sale_id)"
  shows "\<exists>row new.
       sales db' = sales db @ [row] \<and> s_id row = sale_id
     \<and> total_amount s = Some (s_total_amount row)
     \<and> sale_items db' = sale_items db @ new
     \<and> map si_sale_id new = map (\<lambda>i. sale_id) (items s)
     \<and> map si_subtotal new = map subtotal (items s)
     \<and> (total_amount s = total_amount (recalculate_total s)
          \<longrightarrow> s_total_amount row = sum_list (map si_subtotal new))
     \<and> (\<forall>k<length (items s).
           (\<exists>v q p d sub. items s ! k = SaleItem v q p d sub \<and> sub \<le> 0) \<longrightarrow>
           si_subtotal (new ! k)
             = real_of_int (si_quantity (new ! k)) * si_unit_price (new ! k)
                 * (1 - si_discount_percent (new ! k) / 100))"
proof -
  define row where "row = \<lparr>s_id = seq_sales db + 1, s_customer_id = customer_id s,
      s_sale_date = the (sale_date s), s_payment_method = the (payment_method s),
      s_total_amount = the (total_amount s)\<rparr>"
  define dbA where "dbA = db\<lparr>sales := sales db @ [row], seq_sales := seq_sales db + 1\<rparr>"
  from create_sale_Inr_not_null [OF assms] obtain given where given: "total_amount s = Some given"
    by auto
  from create_sale_Inr [OF assms]
  have sid: "sale_id = seq_sales db + 1"
    and sell: "sell_items dbA now sale_id (items s) = Inr db'"
    unfolding dbA_def row_def by blast+
  from sell_items_frame [OF sell] have sales': "sales db' = sales db @ [row]"
    by (simp add: dbA_def)
  from sell_items_sale_items [OF sell] obtain new where
    items': "sale_items db' = sale_items db @ new"
    and new: "map (\<lambda>r. (si_sale_id r, si_variant_id r, si_quantity r, si_unit_price r,
                   si_discount_percent r, si_subtotal r)) new
         = map (\<lambda>i. (sale_id, product_variant_id i, quantity i, unit_price i,
                     discount_percent i, subtotal i)) (items s)"
    by (auto simp: dbA_def)
  have new_sid: "map si_sale_id new = map (\<lambda>i. sale_id) (items s)"
    and new_qty: "map si_quantity new = map quantity (items s)"
    and new_price: "map si_unit_price new = map unit_price (items s)"
    and new_disc: "map si_discount_percent new = map discount_percent (items s)"
    and new_sub: "map si_subtotal new = map subtotal (items s)"
    using arg_cong [OF new, of "map fst"]
      arg_cong [OF new, of "map (fst \<circ> snd \<circ> snd)"]
      arg_cong [OF new, of "map (fst \<circ> snd \<circ> snd \<circ> snd)"]
      arg_cong [OF new, of "map (fst \<circ> snd \<circ> snd \<circ> snd \<circ> snd)"]
      arg_cong [OF new, of "map (snd \<circ> snd \<circ> snd \<circ> snd \<circ> snd)"]
    by (simp_all add: comp_def)
  have len: "length new = length (items s)"
    using arg_cong [OF new_sub, of length] by simp
  have total: "total_amount s = total_amount (recalculate_total s)
      \<longrightarrow> s_total_amount row = sum_list (map si_subtotal new)"
    by (simp add: row_def given recalculate_total_def foldl_plus_sum_list new_sub)
  have each: "si_subtotal (new ! k)
             = real_of_int (si_quantity (new ! k)) * si_unit_price (new ! k)
                 * (1 - si_discount_percent (new ! k) / 100)"
    if k: "k < length (items s)" and built: "items s ! k = SaleItem v q p d sub" "sub \<le> 0"
    for k v q p d sub
  proof -
    from k len have "si_subtotal (new ! k) = map si_subtotal new ! k"
      "si_quantity (new ! k) = map si_quantity new ! k"
      "si_unit_price (new ! k) = map si_unit_price new ! k"
      "si_discount_percent (new ! k) = map si_discount_percent new ! k"
      by simp_all
    with k built show ?thesis
      unfolding new_sub new_qty new_price new_disc
      by (simp add: subtotal_SaleItem)
  qed
  have "s_id row = sale_id" "total_amount s = Some (s_total_amount row)"
    by (simp_all add: row_def sid given)
  with sales' items' new_sid new_sub total each show ?thesis
    by (intro exI [of _ row] exI [of _ new]) blast
qed

theorem create_sale_stores_amounts_witness:
  "snd (create_sale shop ''2024-01-05T12:00:01'' scenario_a) = Inr 1
   \<and> (\<exists>row new.
       sales (fst (create_sale shop ''2024-01-05T12:00:01'' scenario_a)) = sales shop @ [row]
     \<and> s_id row = 1 \<and> s_total_amount row = 80
     \<and> sale_items (fst (create_sale shop ''2024-01-05T12:00:01'' scenario_a))
         = sale_items shop @ new
     \<and> map si_sale_id new = [1]
     \<and> map si_subtotal new = [80]
     \<and> s_total_amount row = sum_list (map si_subtotal new)
     \<and> si_subtotal (new ! 0)
         = real_of_int (si_quantity (new ! 0)) * si_unit_price (new ! 0)
             * (1 - si_discount_percent (new ! 0) / 100))"
proof -
  have created: "create_sale shop ''2024-01-05T12:00:01'' scenario_a
      = (fst (create_sale shop ''2024-01-05T12:00:01'' scenario_a), Inr 1)"
    using scenario_a_created by (simp add: prod_eq_iff)
  have its: "items scenario_a = [SaleItem 1 4 20 0 0]"
    and total: "total_amount scenario_a = Some 80"
    and recalculated: "total_amount (recalculate_total scenario_a) = Some 80"
    and sub: "subtotal (SaleItem 1 4 20 0 0) = 80"
    by (simp_all add: scenario_a_def recalculate_total_def subtotal_SaleItem)
  from create_sale_stores_amounts [OF created] obtain row new where
    r: "sales (fst (create_sale shop ''2024-01-05T12:00:01'' scenario_a)) = sales shop @ [row]"
      "s_id row = 1" "total_amount scenario_a = Some (s_total_amount row)"
      "sale_items (fst (create_sale shop ''2024-01-05T12:00:01'' scenario_a))
         = sale_items shop @ new"
      "map si_sale_id new = map (\<lambda>i. 1) (items scenario_a)"
      "map si_subtotal new = map subtotal (items scenario_a)"
      "total_amount scenario_a = total_amount (recalculate_total scenario_a)
          \<longrightarrow> s_total_amount row = sum_list (map si_subtotal new)"
      "\<forall>k<length (items scenario_a).
           (\<exists>v q p d sub. items scenario_a ! k = SaleItem v q p d sub \<and> sub \<le> 0) \<longrightarrow>
           si_subtotal (new ! k)
             = real_of_int (si_quantity (new ! k)) * si_unit_price (new ! k)
                 * (1 - si_discount_percent (new ! k) / 100)"
    by blast
  from r(8) have "si_subtotal (new ! 0)
         = real_of_int (si_quantity (new ! 0)) * si_unit_price (new ! 0)
             * (1 - si_discount_percent (new ! 0) / 100)"
    unfolding its by fastforce
  moreover from r(3) have "s_total_amount row = 80"
    unfolding total by simp
  ultimately show ?thesis
    using r(1,2,4-7) scenario_a_created
    unfolding its total recalculated
    by (intro conjI exI [of _ row] exI [of _ new]) (simp_all add: sub)
qed

section \<open>Claims about the sign of the stock\<close>

text \<open>
  C4, as stated, fails: \<open>update_inventory\<close> has no check of the sign. Called with the new
  quantity -5 it commits -5 (with a ledger row of -15); the check is in \<open>adjust_inventory\<close>.
\<close>

theorem update_inventory_negative:
  "update_inventory shop ''2024-01-06T09:00:00'' 1 (- 5) (Some ''ADJUSTMENT'') None None
     = (shop\<lparr>inventory :=
               [\<lparr>inv_id = 1, inv_variant_id = 1, inv_quantity = - 5,
                 inv_last_updated = ''2024-01-06T09:00:00''\<rparr>,
                \<lparr>inv_id = 2, inv_variant_id = 2, inv_quantity = 3,
                 inv_last_updated = ''2024-01-02T09:05:00''\<rparr>],
             inventory_transactions := inventory_transactions shop @
               [\<lparr>tx_id = 3, tx_variant_id = 1, tx_quantity_change = - 15,
                 tx_type = ''ADJUSTMENT'', tx_reference_id = None,
                 tx_date = ''2024-01-06T09:00:00'', tx_notes = None\<rparr>],
             seq_inventory_transactions := 3\<rparr>,
        Inr True)"
  by (simp add: update_inventory_def update_inventory_body_def transaction_def
        get_inventory_def select_inventory_def sql_update_inventory_def
        sql_insert_inventory_transaction_def variant_ids_def set_quantity_def Let_def shop_def)

text \<open>
  The stock check of \<open>create_sale\<close> compares each line item with the stored quantity, not with
  what the earlier items of the same call leave: two line items of the variant 2 (stock 3), of
  two units each, both pass, and the sale commits the quantity -1. \<open>Sale.add_item\<close> and the sale
  view merge the items of one variant, so their sales have one line item per variant.
\<close>

lemma create_sale_same_variant_twice:
  "snd (create_sale shop ''2024-01-05T12:00:01''
          (two_items (SaleItem 2 2 20 0 0) (SaleItem 2 2 20 0 0))) = Inr 1
   \<and> select_quantity (fst (create_sale shop ''2024-01-05T12:00:01''
          (two_items (SaleItem 2 2 20 0 0) (SaleItem 2 2 20 0 0)))) 2 = Some (- 1)"
  by (simp add: run_eval two_items_def shop_def)

text \<open>
  C4, amended. From a state in which no Inventory quantity and no stored SaleItem quantity is
  negative, every sequence of calls of \<open>adjust_inventory\<close>, of \<open>cancel_sale\<close>, of \<open>create_sale\<close>
  with line items of pairwise distinct variants and quantities that are not negative, and of
  \<open>update_inventory\<close> with a new quantity that is not negative, commits only Inventory
  quantities greater than or equal to 0, whether the calls succeed or raise.
\<close>

theorem stock_never_negative:
  assumes "\<forall>r\<in>set (inventory db). 0 \<le> inv_quantity r"
    and "\<forall>si\<in>set (sale_items db). 0 \<le> si_quantity si"
    and "\<forall>op\<in>set ops. within_contract op"
  shows "\<forall>r\<in>set (inventory (run db ops)). 0 \<le> inv_quantity r"
proof -
  have "(\<forall>r\<in>set (inventory (foldl apply_operation db ops)). 0 \<le> inv_quantity r)
     \<and> (\<forall>si\<in>set (sale_items (foldl apply_operation db ops)). 0 \<le> si_quantity si)"
    using assms
  proof (induction ops arbitrary: db)
    case Nil
    then show ?case by simp
  next
    case (Cons op ops)
    from Cons.prems(3) have op: "within_contract op" and rest: "\<forall>op\<in>set ops. within_contract op"
      by simp_all
    from apply_operation_nonneg [OF op Cons.prems(1,2)]
    have "\<forall>r\<in>set (inventory (apply_operation db op)). 0 \<le> inv_quantity r"
      "\<forall>si\<in>set (sale_items (apply_operation db op)). 0 \<le> si_quantity si"
      by blast+
    from Cons.IH [OF this rest] show ?case by simp
  qed
  then show ?thesis by (simp add: run_def)
qed

theorem stock_never_negative_witness:
  "list_all (\<lambda>r. 0 \<le> inv_quantity r) (inventory shop)
   \<and> list_all within_contract example_calls
   \<and> list_all (\<lambda>r. 0 \<le> inv_quantity r) (inventory (run shop example_calls))"
proof -
  have h1: "\<forall>r\<in>set (inventory shop). 0 \<le> inv_quantity r"
    and h2: "\<forall>si\<in>set (sale_items shop). 0 \<le> si_quantity si"
    by (simp_all add: shop_def)
  have h3: "\<forall>op\<in>set example_calls. within_contract op"
    by (simp add: example_calls_def within_contract_def scenario_a_def)
  from stock_never_negative [OF h1 h2 h3] h1 h3 show ?thesis
    by (simp add: list_all_iff)
qed

section \<open>Claims about variant creation and the ledger\<close>

text \<open>
  C6 at \<open>add_variant\<close> with an initial quantity of 5: one Inventory row is created for the
  new variant and holds 5, and the table of inventory transactions is the one before the call:
  the initial quantity is not recorded as an ADJUSTMENT row.
\<close>

theorem add_variant_unrecorded_stock:
  "add_variant shop ''2024-01-06T09:00:00'' green_variant
     = (shop\<lparr>product_variants := product_variants shop @
               [\<lparr>pv_id = 3, pv_product_id = 1, pv_size = ''S'', pv_color = ''Verde''\<rparr>],
             seq_product_variants := 3,
             inventory := inventory shop @
               [\<lparr>inv_id = 3, inv_variant_id = 3, inv_quantity = 5,
                 inv_last_updated = ''2024-01-06T09:00:00''\<rparr>],
             seq_inventory := 3\<rparr>,
        Inr 3)"
  by (simp add: add_variant_def transaction_def select_variant_def
        sql_insert_product_variant_def sql_insert_inventory_def variant_ids_def
        green_variant_def ProductVariant_def shop_def shirt_def)

text \<open>
  The only caller of \<open>add_variant\<close> (views/product_view.py) goes on with
  \<^verbatim>\<open>adjust_inventory(variant_id, stock, "Inventario inicial")\<close>: the ADJUSTMENT row is then
  written, on top of the quantity that \<open>add_variant\<close> has stored, and the stock is 10.
\<close>

lemma add_variant_then_adjust_doubles:
  "select_quantity (fst (adjust_inventory (fst (add_variant shop ''2024-01-06T09:00:00'' green_variant))
       ''2024-01-06T09:00:01'' 3 5 (Some ''Inventario inicial''))) 3 = Some 10"
  by (simp add: add_variant_def transaction_def select_variant_def
        sql_insert_product_variant_def sql_insert_inventory_def variant_ids_def
        green_variant_def ProductVariant_def shop_def shirt_def select_quantity_def
        select_inventory_def adjust_inventory_def get_inventory_def update_inventory_def
        update_inventory_body_def sql_update_inventory_def sql_insert_inventory_transaction_def
        set_quantity_def Let_def)

text \<open>
  C1 at the same call, from a state in which stock and ledger agree: after \<open>add_variant\<close>
  the Inventory quantity of the new variant is 5 and the signed sum of its InventoryTransaction
  rows is 0.
\<close>

theorem add_variant_breaks_ledger:
  "select_quantity (fst (add_variant shop ''2024-01-06T09:00:00'' green_variant)) 3 = Some 5
   \<and> ledger_sum (fst (add_variant shop ''2024-01-06T09:00:00'' green_variant)) 3 = 0"
  by (simp add: add_variant_def transaction_def select_variant_def
        sql_insert_product_variant_def sql_insert_inventory_def variant_ids_def
        green_variant_def ProductVariant_def shop_def shirt_def select_quantity_def
        select_inventory_def ledger_sum_def)

end
